theory Spec2Isabelle
  imports Main
begin

section \<open>JavaScript primitives used by merge-fleet-records.js\<close>

text \<open>
  Strings are lists of code units. The model covers the code units below 256 (Latin-1),
  which is what \<^typ>\<open>char\<close> holds; within that range the white space of
  \<^verbatim>\<open>String.prototype.trim\<close> and of \<^verbatim>\<open>parseInt\<close> is TAB, LF, VT, FF, CR, SPACE
  and NBSP, and the class \<^verbatim>\<open>[0-9]\<close> is the code units 48 to 57.
\<close>

definition isWhiteSpace :: "char \<Rightarrow> bool" where
  "isWhiteSpace c = (of_char c \<in> set [9, 10, 11, 12, 13, 32, 160 :: nat])"

definition isDigit :: "char \<Rightarrow> bool" where
  "isDigit c = (48 \<le> (of_char c :: nat) \<and> (of_char c :: nat) \<le> 57)"

definition trim :: "string \<Rightarrow> string" where
  "trim s = rev (dropWhile isWhiteSpace (rev (dropWhile isWhiteSpace s)))"

text \<open>
  \<^verbatim>\<open>text.split(/\r?\n/)\<close>: the scan cuts at every LF, and at every CR that is directly
  followed by LF (both are consumed); the text after the last cut is the last piece, so the
  result is never empty.
\<close>

fun splitLines :: "string \<Rightarrow> string list" where
  "splitLines [] = [[]]"
| "splitLines (c # cs) =
     (if c = CHR 0x0A then [] # splitLines cs
      else (case cs of
              d # ds \<Rightarrow>
                if c = CHR 0x0D \<and> d = CHR 0x0A then [] # splitLines ds
                else (case splitLines cs of [] \<Rightarrow> [[c]] | l # ls \<Rightarrow> (c # l) # ls)
            | [] \<Rightarrow> [[c]]))"

text \<open>\<^verbatim>\<open>line.split(',')\<close>, for any one-character separator.\<close>

fun split :: "char \<Rightarrow> string \<Rightarrow> string list" where
  "split sep [] = [[]]"
| "split sep (c # cs) =
     (if c = sep then [] # split sep cs
      else (case split sep cs of [] \<Rightarrow> [[c]] | l # ls \<Rightarrow> (c # l) # ls))"

text \<open>
  \<^verbatim>\<open>arr.join(sep)\<close> on an array that may have holes or undefined entries (\<open>None\<close>), which
  \<open>render\<close> writes as the empty string.
\<close>

definition render :: "string option \<Rightarrow> string" where
  "render x = (case x of None \<Rightarrow> [] | Some s \<Rightarrow> s)"

fun join :: "string \<Rightarrow> string option list \<Rightarrow> string" where
  "join sep [] = []"
| "join sep [x] = render x"
| "join sep (x # y # ys) = render x @ sep @ join sep (y # ys)"

text \<open>\<^verbatim>\<open>arr[i]\<close> for an integer \<open>i\<close>: \<open>None\<close> is \<^verbatim>\<open>undefined\<close>.\<close>

definition js_index :: "'a list \<Rightarrow> int \<Rightarrow> 'a option" where
  "js_index xs i = (if 0 \<le> i \<and> i < int (length xs) then Some (xs ! nat i) else None)"

text \<open>\<^verbatim>\<open>cols[i] = v\<close>: an index past the end extends the array with holes.\<close>

definition js_assign :: "'a option list \<Rightarrow> nat \<Rightarrow> 'a option \<Rightarrow> 'a option list" where
  "js_assign xs i v =
     (if i < length xs then xs[i := v] else xs @ replicate (i - length xs) None @ [v])"

text \<open>The relative index of \<^verbatim>\<open>slice\<close> and \<^verbatim>\<open>splice\<close>: a negative one counts from the end.\<close>

definition relIndex :: "nat \<Rightarrow> int \<Rightarrow> nat" where
  "relIndex len i = (if i < 0 then nat (max (int len + i) 0) else min (nat i) len)"

definition slice :: "'a list \<Rightarrow> int \<Rightarrow> int \<Rightarrow> 'a list" where
  "slice xs start fin =
     (let k = relIndex (length xs) start; f = relIndex (length xs) fin
      in take (f - k) (drop k xs))"

definition sliceFrom :: "'a list \<Rightarrow> int \<Rightarrow> 'a list" where
  "sliceFrom xs start = drop (relIndex (length xs) start) xs"

text \<open>\<^verbatim>\<open>arr.splice(start, deleteCount)\<close>: the removed elements and the array that is left.\<close>

definition splice :: "'a list \<Rightarrow> int \<Rightarrow> int \<Rightarrow> 'a list \<times> 'a list" where
  "splice xs start deleteCount =
     (let k = relIndex (length xs) start;
          dc = min (nat (max deleteCount 0)) (length xs - k)
      in (take dc (drop k xs), take k xs @ drop (k + dc) xs))"

text \<open>\<^verbatim>\<open>arr.shift()\<close>, the array that is left: nothing happens on an empty array.\<close>

definition shift :: "'a list \<Rightarrow> 'a list" where
  "shift xs = (case xs of [] \<Rightarrow> [] | _ # rest \<Rightarrow> rest)"

text \<open>\<^verbatim>\<open>total.toString()\<close> of a non-negative integer: its decimal digits.\<close>

function toString :: "nat \<Rightarrow> string" where
  "toString n =
     (if n < 10 then [''0123456789'' ! n]
      else toString (n div 10) @ [''0123456789'' ! (n mod 10)])"
  by pat_completeness auto
termination
  by (relation "measure id") auto

declare toString.simps [simp del]

text \<open>
  The reading step of \<^verbatim>\<open>parseInt(s, 10)\<close>: leading white space is skipped, one sign is
  read, then the longest run of decimal digits; no digit gives NaN (\<open>None\<close>). The value is
  the mathematical integer of that sign and those digits, before \<^verbatim>\<open>parseInt\<close> turns it
  into a Number (see \<open>parseInt\<close> below).
\<close>

definition digitsValue :: "string \<Rightarrow> nat" where
  "digitsValue ds = foldl (\<lambda>acc c. 10 * acc + (of_char c - 48)) 0 ds"

definition parseInt10 :: "string \<Rightarrow> int option" where
  "parseInt10 s =
     (let body = dropWhile isWhiteSpace s;
          neg = (body \<noteq> [] \<and> hd body = CHR ''-'');
          rest = (if body \<noteq> [] \<and> (hd body = CHR ''+'' \<or> hd body = CHR ''-'') then tl body else body);
          z = takeWhile isDigit rest
      in if z = [] then None
         else Some ((if neg then - 1 else 1) * int (digitsValue z)))"

text \<open>
  The Number that \<^verbatim>\<open>parseInt\<close> returns. An integer of magnitude below \<open>2^53\<close> is a double
  and is returned as it is (\<open>Integer\<close>; the sign of a zero is not kept). For any other
  integer the source gets the double it is rounded to, from digits that an engine may cut
  after the 20th, or an infinity: \<open>Huge\<close> only keeps whether it is negative and stands
  for that double, which is not NaN.
\<close>

datatype number = NaN | Integer int | Huge bool

definition toNumber :: "int \<Rightarrow> number" where
  "toNumber v = (if \<bar>v\<bar> < 9007199254740992 then Integer v else Huge (v < 0))"

definition parseInt :: "string \<Rightarrow> number" where
  "parseInt s = (case parseInt10 s of None \<Rightarrow> NaN | Some v \<Rightarrow> toNumber v)"

text \<open>\<^verbatim>\<open>toLowerCase\<close> on the code units below 256: A to Z, and U+00C0 to U+00DE but U+00D7.\<close>

definition toLowerChar :: "char \<Rightarrow> char" where
  "toLowerChar c =
     (let n = (of_char c :: nat)
      in if (65 \<le> n \<and> n \<le> 90) \<or> (192 \<le> n \<and> n \<le> 222 \<and> n \<noteq> 215)
         then char_of (n + 32) else c)"

definition toLowerCase :: "string \<Rightarrow> string" where
  "toLowerCase s = map toLowerChar s"

section \<open>Field schemas and constants\<close>

text \<open>\<^verbatim>\<open>defleetIdx\<close>: the column of each field of the vehicle schema.\<close>

definition defleetIdx_license_plate_number :: nat where "defleetIdx_license_plate_number = 2"
definition defleetIdx_license_plate_state :: nat where "defleetIdx_license_plate_state = 3"
definition defleetIdx_year :: nat where "defleetIdx_year = 4"
definition defleetIdx_make :: nat where "defleetIdx_make = 5"
definition defleetIdx_model :: nat where "defleetIdx_model = 6"
definition defleetIdx_color :: nat where "defleetIdx_color = 7"
definition defleetIdx_vin :: nat where "defleetIdx_vin = 8"

text \<open>\<^verbatim>\<open>errorColumnMapping\<close>, in the order of \<^verbatim>\<open>Object.entries\<close>.\<close>

definition errorColumnMapping :: "(string \<times> nat) list" where
  "errorColumnMapping =
     [(''brand'', 0), (''ody_vehicle_id_number'', 1), (''license_plate_number'', 2),
      (''license_plate_state'', 3), (''year'', 4), (''make'', 5), (''model'', 6),
      (''color'', 7), (''vin'', 8), (''location_group'', 9), (''location_code'', 10),
      (''location_name'', 11), (''address_1'', 12), (''address_2'', 13), (''city'', 14),
      (''state'', 15), (''zip'', 16), (''phone_number'', 17), (''vehicle_erac'', 18)]"

definition commonWords :: "string list" where
  "commonWords = [''delta'']"

text \<open>
  The objects written as JSON. A field is \<open>None\<close> when its value is \<^verbatim>\<open>undefined\<close>
  (\<^verbatim>\<open>JSON.stringify\<close> then leaves the key out). The fleet object has the first two keys of
  the vehicle object, so the vehicle record extends it; the key \<^verbatim>\<open>make\<close> is the field
  \<open>make_\<close> (the record package owns the name \<open>make\<close>).
\<close>

record fleet =
  license_plate_number :: "string option"
  license_plate_state :: "string option"

record vehicle = fleet +
  year :: "string option"
  make_ :: "string option"
  model :: "string option"
  color :: "string option"
  vin :: "string option"

type_synonym errorRecord = "(string \<times> string) list"

section \<open>The pipeline of generateAndMerge\<close>

text \<open>\<^verbatim>\<open>parseCsvRecords\<close>: trimmed lines, without the blank ones and the ones matching
  \<^verbatim>\<open>/^[0-9]+$/\<close>.\<close>

definition parseCsvRecords :: "string \<Rightarrow> string list" where
  "parseCsvRecords text =
     filter (\<lambda>line. line \<noteq> [] \<and> \<not> (line \<noteq> [] \<and> list_all isDigit line))
       (map trim (splitLines text))"

text \<open>\<^verbatim>\<open>cols[i]\<close> on the array of a split line: \<open>None\<close> past its end.\<close>

definition col :: "string list \<Rightarrow> nat \<Rightarrow> string option" where
  "col cols i = js_index cols (int i)"

text \<open>The object built from a line in steps 5 and 8 (defleet and infleet).\<close>

definition vehicleOf :: "string \<Rightarrow> vehicle" where
  "vehicleOf line =
     (let cols = split CHR '','' line
      in \<lparr> license_plate_number = col cols defleetIdx_license_plate_number,
           license_plate_state = col cols defleetIdx_license_plate_state,
           year = col cols defleetIdx_year,
           make_ = col cols defleetIdx_make,
           model = col cols defleetIdx_model,
           color = col cols defleetIdx_color,
           vin = col cols defleetIdx_vin \<rparr>)"

text \<open>\<^verbatim>\<open>words[i % words.length]\<close>: with no word the remainder is NaN and the read is
  \<^verbatim>\<open>undefined\<close>.\<close>

definition wordAt :: "string list \<Rightarrow> nat \<Rightarrow> string option" where
  "wordAt ws i = (if ws = [] then None else Some (ws ! (i mod length ws)))"

text \<open>The object built from line \<open>i\<close> of the update batch in step 6.\<close>

definition updateOf :: "string list \<Rightarrow> nat \<Rightarrow> string \<Rightarrow> vehicle" where
  "updateOf ws i line =
     (let cols = split CHR '','' line
      in \<lparr> license_plate_number = col cols defleetIdx_license_plate_number,
           license_plate_state = col cols defleetIdx_license_plate_state,
           year = col cols defleetIdx_year,
           make_ = col cols defleetIdx_make,
           model = col cols defleetIdx_model,
           color = wordAt ws i,
           vin = col cols defleetIdx_vin \<rparr>)"

text \<open>\<^verbatim>\<open>cols[idx] || ''\<close>: undefined and the empty string both give the empty string.\<close>

definition orEmpty :: "string option \<Rightarrow> string" where
  "orEmpty v = (case v of None \<Rightarrow> [] | Some s \<Rightarrow> if s = [] then [] else s)"

text \<open>The object built from a line in step 8 (error records).\<close>

definition errorOf :: "string \<Rightarrow> errorRecord" where
  "errorOf line =
     (let cols = split CHR '','' line
      in map (\<lambda>(key, idx). (key, orEmpty (col cols idx))) errorColumnMapping)"

text \<open>The body of the loop that overrides the colour in the CSV line.\<close>

definition overrideLine :: "string list \<Rightarrow> nat \<Rightarrow> string \<Rightarrow> string" where
  "overrideLine ws i line =
     join '','' (js_assign (map Some (split CHR '','' line)) defleetIdx_color (wordAt ws i))"

text \<open>
  What can stop a run: a read of \<^verbatim>\<open>split\<close> on \<^verbatim>\<open>undefined\<close>, and a failure of the SFTP
  collaborator, which the source does not catch. The writes to the local disk are taken to
  succeed.
\<close>

datatype error = TypeError | IOFailure

datatype json =
    VehicleJson "vehicle list"
  | ErrorJson "errorRecord list"
  | FleetJson "fleet list"

text \<open>
  The files a run writes, in the order it writes them: \<open>SaveJson folder name ts data\<close> is
  the call \<^verbatim>\<open>saveJson(folder, name, ts, data)\<close> (the folder is given relative to the
  script's directory), \<open>WriteFile dir fileName content\<close> is a \<^verbatim>\<open>fs.writeFileSync\<close> of text.
\<close>

datatype written =
    SaveJson string string string json
  | WriteFile string string string

text \<open>
  What \<^verbatim>\<open>downloadYesterdayFile\<close> does: it throws, it returns null when no remote file
  matches, or it returns the path of the local copy, whose text is \<open>Fetched\<close>'s argument.
\<close>

datatype yesterday = SftpFailure | NoRemoteFile | Fetched string

definition outputDir :: string where "outputDir = ''D:/sampledata''"
definition mergedOutputDir :: string where "mergedOutputDir = ''D:/mergeddata''"

text \<open>Step 4: the lines of yesterday's file that are not blank, without the first line and,
  when two or more are left, without the last two.\<close>

definition cleanYesterday :: "string \<Rightarrow> string list" where
  "cleanYesterday text =
     (let raw = filter (\<lambda>l. l \<noteq> []) (map trim (splitLines text));
          raw1 = shift raw
      in if length raw1 \<ge> 2 then snd (splice raw1 (- 2) 2) else raw1)"

definition loadYesterday :: "yesterday \<Rightarrow> string list" where
  "loadYesterday yest = (case yest of Fetched text \<Rightarrow> cleanYesterday text | _ \<Rightarrow> [])"

text \<open>Step 5: the defleet batch and the records that stay.\<close>

definition defleet :: "string list \<Rightarrow> string list \<times> string list" where
  "defleet oldRecords =
     (if length oldRecords \<ge> 10 then splice oldRecords (- 10) 10 else ([], oldRecords))"

text \<open>Step 6: \<^verbatim>\<open>updateStart\<close>, \<^verbatim>\<open>updateBatch\<close> and \<^verbatim>\<open>updateData\<close>.\<close>

definition updateStart :: "string list \<Rightarrow> int" where
  "updateStart oldRecords = int (length oldRecords) - 10"

definition updateBatch :: "string list \<Rightarrow> string list" where
  "updateBatch oldRecords = sliceFrom oldRecords (updateStart oldRecords)"

definition updateData :: "string list \<Rightarrow> string list \<Rightarrow> vehicle list" where
  "updateData ws oldRecords =
     map (\<lambda>(i, line). updateOf ws i line) (enumerate 0 (updateBatch oldRecords))"

text \<open>
  The loop \<^verbatim>\<open>for (let i = 0; i < updateBatch.length; i++)\<close> over the records, from \<open>i\<close> on:
  \<open>start\<close> is \<^verbatim>\<open>updateStart\<close> and \<open>n\<close> is \<^verbatim>\<open>updateBatch.length\<close>. Reading
  \<^verbatim>\<open>oldRecords[idx]\<close> outside the array gives \<^verbatim>\<open>undefined\<close>, and \<^verbatim>\<open>.split\<close> on it throws.
\<close>

function colorLoop :: "string list \<Rightarrow> int \<Rightarrow> nat \<Rightarrow> nat \<Rightarrow> string list \<Rightarrow> error + string list" where
  "colorLoop ws start n i oldRecords =
     (if i < n then
        (let idx = start + int i
         in case js_index oldRecords idx of
              None \<Rightarrow> Inl TypeError
            | Some line \<Rightarrow>
                colorLoop ws start n (i + 1) (oldRecords[nat idx := overrideLine ws i line]))
      else Inr oldRecords)"
  by pat_completeness auto
termination
  by (relation "measure (\<lambda>(ws, start, n, i, oldRecords). n - i)") auto

declare colorLoop.simps [simp del]

definition overrideInCsv :: "string list \<Rightarrow> string list \<Rightarrow> error + string list" where
  "overrideInCsv ws oldRecords =
     colorLoop ws (updateStart oldRecords) (length (updateBatch oldRecords)) 0 oldRecords"

text \<open>Step 8: the three record sets made from today's records.\<close>

definition errorRecords :: "string list \<Rightarrow> errorRecord list" where
  "errorRecords newRecords = map errorOf (sliceFrom newRecords (- 2))"

definition infleetRecords :: "string list \<Rightarrow> vehicle list" where
  "infleetRecords newRecords = map vehicleOf (slice newRecords 0 (- 2))"

definition fleetRecords :: "vehicle list \<Rightarrow> fleet list" where
  "fleetRecords infleet =
     map (\<lambda>r. \<lparr> license_plate_number = license_plate_number r,
                license_plate_state = license_plate_state r \<rparr>) infleet"

text \<open>Step 10: the lines of the merged file, and its text.\<close>

definition mergedLines :: "string list \<Rightarrow> string list \<Rightarrow> string list" where
  "mergedLines oldRecords newRecords =
     toString (length oldRecords + length newRecords) # oldRecords @ newRecords"

definition mergedText :: "string list \<Rightarrow> string list \<Rightarrow> string" where
  "mergedText oldRecords newRecords =
     join [CHR 0x0A] (map Some (mergedLines oldRecords newRecords))"

text \<open>
  \<^verbatim>\<open>generateAndMerge\<close>, from the rendered text \<open>todayCsv\<close> on: the random generation and the
  Liquid template give that text, the clock gives \<open>ts\<close>, the SFTP server gives \<open>yest\<close>.
  The result is how the run ends and the files written until then. The word list is an
  argument here; the source's run is \<open>generateAndMerge\<close> below.
\<close>

definition generateAndMergeWith ::
  "string list \<Rightarrow> string \<Rightarrow> string \<Rightarrow> string \<Rightarrow> yesterday \<Rightarrow> (error + unit) \<times> written list" where
  "generateAndMergeWith ws ts fmt todayCsv yest =
     (let fileName = ''em-fleet-'' @ ts @ ''.'' @ fmt;
          w2 = [WriteFile outputDir fileName todayCsv]
      in if yest = SftpFailure then (Inl IOFailure, w2)
         else
           (let (defleetBatch, oldRecords) = defleet (loadYesterday yest);
                defleetData = map vehicleOf defleetBatch;
                w5 = w2 @ (if defleetData \<noteq> []
                           then [SaveJson ''defleet'' ''defleet'' ts (VehicleJson defleetData)]
                           else []);
                w6 = w5 @ (if updateData ws oldRecords \<noteq> []
                           then [SaveJson ''update'' ''update'' ts
                                   (VehicleJson (updateData ws oldRecords))]
                           else [])
            in case overrideInCsv ws oldRecords of
                 Inl e \<Rightarrow> (Inl e, w6)
               | Inr oldRecords' \<Rightarrow>
                   (let newRecords = parseCsvRecords todayCsv;
                        infleet = infleetRecords newRecords;
                        historyRecords = infleet @ updateData ws oldRecords
                    in (Inr (),
                        w6 @
                        [SaveJson ''error_records'' ''error_records'' ts
                           (ErrorJson (errorRecords newRecords)),
                         SaveJson ''infleet_records'' ''infleet_records'' ts (VehicleJson infleet),
                         SaveJson ''fleet_records'' ''fleet_records'' ts
                           (FleetJson (fleetRecords infleet)),
                         SaveJson ''history_records'' ''history_records'' ts
                           (VehicleJson historyRecords),
                         WriteFile mergedOutputDir fileName
                           (mergedText oldRecords' newRecords)]))))"

definition generateAndMerge ::
  "string \<Rightarrow> string \<Rightarrow> string \<Rightarrow> yesterday \<Rightarrow> (error + unit) \<times> written list" where
  "generateAndMerge = generateAndMergeWith commonWords"

text \<open>
  The entry point: \<open>argv\<close> is \<^verbatim>\<open>process.argv.slice(2)\<close>. \<open>UsageExit\<close> is the usage message
  and \<^verbatim>\<open>process.exit(1)\<close>; \<open>Run count fmt\<close> is the call \<^verbatim>\<open>generateAndMerge(count, fmt)\<close>.
\<close>

datatype started = UsageExit | Run number string

definition main :: "string list \<Rightarrow> started" where
  "main argv =
     (let rawCount = js_index argv 0;
          rawFmt = js_index argv 1;
          count = parseInt (case rawCount of None \<Rightarrow> ''undefined'' | Some s \<Rightarrow> s);
          fmt = toLowerCase (case rawFmt of None \<Rightarrow> ''csv''
                                           | Some s \<Rightarrow> if s = [] then ''csv'' else s)
      in if count = NaN \<or> fmt \<notin> set [''csv'', ''txt''] then UsageExit
         else Run count fmt)"

section \<open>Observations on a run, and the partition as the specification words it\<close>

text \<open>The names of the record sets saved by a run, in the order of the calls.\<close>

fun savedNames :: "written list \<Rightarrow> string list" where
  "savedNames [] = []"
| "savedNames (SaveJson folder name ts data # rest) = name # savedNames rest"
| "savedNames (WriteFile dir fileName content # rest) = savedNames rest"

text \<open>Whether a file was written into the directory of the merged snapshots.\<close>

fun mergedWritten :: "written list \<Rightarrow> bool" where
  "mergedWritten [] = False"
| "mergedWritten (SaveJson folder name ts data # rest) = mergedWritten rest"
| "mergedWritten (WriteFile dir fileName content # rest) =
     (dir = mergedOutputDir \<or> mergedWritten rest)"

text \<open>What a write holds, without the folder, the file name and the time stamp.\<close>

fun content :: "written \<Rightarrow> json + string" where
  "content (SaveJson folder name ts data) = Inl data"
| "content (WriteFile dir fileName text) = Inr text"

text \<open>
  The Snapshot Partitioner in the words of the specification (section 4.3): the defleet
  batch and the working tail of a snapshot text that may be absent.
\<close>

definition spec_partition :: "string option \<Rightarrow> string list \<times> string list" where
  "spec_partition snapshot =
     (case snapshot of
        None \<Rightarrow> ([], [])
      | Some text \<Rightarrow>
          (let lines = filter (\<lambda>l. l \<noteq> []) (map trim (splitLines text));
               noHeader = (if 1 \<le> length lines then tl lines else lines);
               tail = (if 2 \<le> length noHeader then take (length noHeader - 2) noHeader
                       else noHeader)
           in if length tail < 10 then ([], tail)
              else (drop (length tail - 10) tail, take (length tail - 10) tail)))"

text \<open>
  The projection in the words of the specification (section 4.2): for each entry of a
  schema, the field at its index, and the empty string when the line has no such field.
  The vehicle schema is \<^verbatim>\<open>defleetIdx\<close> as a list of entries; the full schema is
  \<open>errorColumnMapping\<close>.
\<close>

definition spec_project :: "(string \<times> nat) list \<Rightarrow> string \<Rightarrow> (string \<times> string) list" where
  "spec_project schema line =
     map (\<lambda>(name, index).
            (name, case col (split CHR '','' line) index of None \<Rightarrow> [] | Some v \<Rightarrow> v))
       schema"

definition vehicleSchema :: "(string \<times> nat) list" where
  "vehicleSchema =
     [(''license_plate_number'', defleetIdx_license_plate_number),
      (''license_plate_state'', defleetIdx_license_plate_state),
      (''year'', defleetIdx_year), (''make'', defleetIdx_make), (''model'', defleetIdx_model),
      (''color'', defleetIdx_color), (''vin'', defleetIdx_vin)]"

text \<open>The named record that this projection gives under the vehicle schema, as a vehicle
  object: every key has a string.\<close>

definition spec_vehicle :: "string \<Rightarrow> vehicle" where
  "spec_vehicle line =
     (let named = map_of (spec_project vehicleSchema line)
      in \<lparr> license_plate_number = named ''license_plate_number'',
           license_plate_state = named ''license_plate_state'',
           year = named ''year'',
           make_ = named ''make'',
           model = named ''model'',
           color = named ''color'',
           vin = named ''vin'' \<rparr>)"

text \<open>The working tail handed to the update step, and the files written before the loop
  that overrides the colours in the CSV lines: today's raw file, and the defleet and update
  sets when they are not empty.\<close>

definition tailOf :: "yesterday \<Rightarrow> string list" where
  "tailOf yest = snd (defleet (loadYesterday yest))"

definition writesBefore :: "string list \<Rightarrow> string \<Rightarrow> string \<Rightarrow> string \<Rightarrow> yesterday \<Rightarrow> written list" where
  "writesBefore ws ts fmt todayCsv yest =
     WriteFile outputDir (''em-fleet-'' @ ts @ ''.'' @ fmt) todayCsv
     # (if fst (defleet (loadYesterday yest)) \<noteq> []
        then [SaveJson ''defleet'' ''defleet'' ts
                (VehicleJson (map vehicleOf (fst (defleet (loadYesterday yest)))))]
        else [])
     @ (if updateBatch (tailOf yest) \<noteq> []
        then [SaveJson ''update'' ''update'' ts (VehicleJson (updateData ws (tailOf yest)))]
        else [])"

section \<open>Example inputs\<close>

text \<open>A snapshot of a count line and 13 records, with a blank line and a padded line.\<close>

definition snapshot13 :: string where
  "snapshot13 = ''13\<newline>r1\<newline> r2 \<newline>\<newline>r3\<newline>r4\<newline>r5\<newline>r6\<newline>r7\<newline>r8\<newline>r9\<newline>r10\<newline>r11\<newline>r12\<newline>r13''"

text \<open>Today's text: a full record, a count line that the parser drops, a blank line, and two
  short lines.\<close>

definition today3 :: string where
  "today3 = ''E,1,P1,GA,2024,Kia,Rio,red,V1\<newline>42\<newline>\<newline>x,y\<newline> z ''"

text \<open>A snapshot of a count line, 20 records and two trailing error rows; the third record
  is short.\<close>

definition snapshot23 :: string where
  "snapshot23 =
     ''22\<newline>E,1,P01,GA,2024,Kia,Rio,red,V01\<newline>E,2,P02,AL,2024,Kia,Rio,red,V02\<newline>E,3,P03\<newline>E,4,P04,AK,2024,Kia,Rio,red,V04\<newline>E,5,P05,AZ,2024,Kia,Rio,red,V05\<newline>E,6,P06,AR,2024,Kia,Rio,red,V06\<newline>E,7,P07,CA,2024,Kia,Rio,red,V07\<newline>E,8,P08,CO,2024,Kia,Rio,red,V08\<newline>E,9,P09,CT,2024,Kia,Rio,red,V09\<newline>E,10,P10,DE,2024,Kia,Rio,red,V10\<newline>d1\<newline>d2\<newline>d3\<newline>d4\<newline>d5\<newline>d6\<newline>d7\<newline>d8\<newline>d9\<newline>d10\<newline>e1\<newline>e2''"

text \<open>A snapshot of a count line, one record and two trailing error rows.\<close>

definition snapshot3 :: string where
  "snapshot3 = ''3\<newline>a,b\<newline>c,d\<newline>e,f''"

text \<open>New records: a full line, a short line, and the two last lines.\<close>

definition batch4 :: "string list" where
  "batch4 = [''E,1,P1,GA,2024,Kia,Rio,red,V1'', ''E,3,P03'', ''x,y'', ''z'']"

section \<open>Facts about the primitives\<close>

lemmas defleetIdx_defs =
  defleetIdx_license_plate_number_def defleetIdx_license_plate_state_def defleetIdx_year_def
  defleetIdx_make_def defleetIdx_model_def defleetIdx_color_def defleetIdx_vin_def

lemma relIndex_neg: "0 < k \<Longrightarrow> relIndex len (- int k) = len - k"
  by (auto simp: relIndex_def max_def)

lemma relIndex_minus2: "relIndex len (- 2) = len - 2"
  using relIndex_neg [of 2 len] by simp

lemma relIndex_minus10: "relIndex len (- 10) = len - 10"
  using relIndex_neg [of 10 len] by simp

lemma relIndex_0: "relIndex len 0 = 0"
  by (simp add: relIndex_def)

lemma sliceFrom_last2: "sliceFrom xs (- 2) = drop (length xs - 2) xs"
  by (simp add: sliceFrom_def relIndex_minus2)

lemma slice_but_last2: "slice xs 0 (- 2) = take (length xs - 2) xs"
  by (simp add: slice_def relIndex_minus2 relIndex_0 Let_def numeral_2_eq_2)

lemma splice_last2:
  "2 \<le> length xs \<Longrightarrow> splice xs (- 2) 2 = (drop (length xs - 2) xs, take (length xs - 2) xs)"
  by (simp add: splice_def relIndex_minus2 Let_def)

lemma splice_last10:
  "10 \<le> length xs \<Longrightarrow>
   splice xs (- 10) 10 = (drop (length xs - 10) xs, take (length xs - 10) xs)"
  by (simp add: splice_def relIndex_minus10 Let_def)

lemma digit_char:
  assumes "d < 10"
  shows "isDigit (''0123456789'' ! d)" and "of_char (''0123456789'' ! d) - 48 = d"
    and "\<not> isWhiteSpace (''0123456789'' ! d)"
    and "''0123456789'' ! d \<noteq> CHR ''+''" and "''0123456789'' ! d \<noteq> CHR ''-''"
proof -
  from assms have "d \<in> {0, 1, 2, 3, 4, 5, 6, 7, 8, 9}" by auto
  then show "isDigit (''0123456789'' ! d)" and "of_char (''0123456789'' ! d) - 48 = d"
    and "\<not> isWhiteSpace (''0123456789'' ! d)"
    and "''0123456789'' ! d \<noteq> CHR ''+''" and "''0123456789'' ! d \<noteq> CHR ''-''"
    by (auto simp: isDigit_def isWhiteSpace_def)
qed

lemma toString_digits: "list_all isDigit (toString n)"
proof (induction n rule: toString.induct)
  case (1 n)
  show ?case
  proof (cases "n < 10")
    case True
    then show ?thesis by (subst toString.simps) (simp add: digit_char)
  next
    case False
    with 1 have "list_all isDigit (toString (n div 10))" by simp
    moreover have "isDigit (''0123456789'' ! (n mod 10))" by (rule digit_char) simp
    ultimately show ?thesis using False by (subst toString.simps) simp
  qed
qed

lemma toString_nonempty: "toString n \<noteq> []"
  by (subst toString.simps) simp

lemma digitsValue_snoc: "digitsValue (ds @ [c]) = 10 * digitsValue ds + (of_char c - 48)"
  by (simp add: digitsValue_def)

lemma digitsValue_toString: "digitsValue (toString n) = n"
proof (induction n rule: toString.induct)
  case (1 n)
  show ?case
  proof (cases "n < 10")
    case True
    then show ?thesis by (subst toString.simps) (simp add: digitsValue_def digit_char)
  next
    case False
    with 1 have ih: "digitsValue (toString (n div 10)) = n div 10" by simp
    have "of_char (''0123456789'' ! (n mod 10)) - 48 = n mod 10" by (rule digit_char) simp
    with ih False show ?thesis
      by (subst toString.simps) (simp add: digitsValue_snoc)
  qed
qed

lemma hd_toString: "isDigit (hd (toString n))"
  using toString_digits [of n] toString_nonempty [of n]
  by (cases "toString n") simp_all

lemma isDigit_facts: "isDigit c \<Longrightarrow> \<not> isWhiteSpace c \<and> c \<noteq> CHR ''+'' \<and> c \<noteq> CHR ''-''"
  by (auto simp: isDigit_def isWhiteSpace_def)

lemma takeWhile_all: "list_all P xs \<Longrightarrow> takeWhile P xs = xs"
  by (induction xs) simp_all

lemma parseInt10_toString: "parseInt10 (toString n) = Some (int n)"
proof -
  obtain c cs where eq: "toString n = c # cs"
    using toString_nonempty [of n] by (cases "toString n") auto
  have c: "isDigit c" using hd_toString [of n] eq by simp
  have tw: "takeWhile isDigit cs = cs"
    using toString_digits [of n] eq by (simp add: takeWhile_all)
  have dv: "digitsValue (c # cs) = n" using digitsValue_toString [of n] eq by simp
  show ?thesis
    unfolding eq parseInt10_def using isDigit_facts [OF c] c dv
    by (simp add: Let_def tw)
qed

lemma split_nonempty: "split sep s \<noteq> []"
  by (induction s) (auto split: list.splits)

lemma split_no_sep: "sep \<notin> set s \<Longrightarrow> split sep s = [s]"
  by (induction s) (auto split: list.splits)

lemma split_append: "sep \<notin> set a \<Longrightarrow> split sep (a @ sep # b) = a # split sep b"
  by (induction a) (auto split: list.splits)

lemma split_fields: "f \<in> set (split sep s) \<Longrightarrow> sep \<notin> set f"
proof (induction s arbitrary: f)
  case Nil
  then show ?case by simp
next
  case (Cons c cs)
  show ?case
  proof (cases "c = sep")
    case True
    with Cons show ?thesis by auto
  next
    case False
    obtain l ls where eq: "split sep cs = l # ls"
      using split_nonempty [of sep cs] by (cases "split sep cs") auto
    with False Cons.prems have "f = c # l \<or> f \<in> set ls" by simp
    then show ?thesis
    proof
      assume "f = c # l"
      moreover have "sep \<notin> set l" using Cons.IH [of l] eq by simp
      ultimately show ?thesis using False by auto
    next
      assume "f \<in> set ls"
      then show ?thesis using Cons.IH [of f] eq by simp
    qed
  qed
qed

lemma split_join:
  "xs \<noteq> [] \<Longrightarrow> (\<And>x. x \<in> set xs \<Longrightarrow> sep \<notin> set (render x)) \<Longrightarrow>
   split sep (join [sep] xs) = map render xs"
proof (induction "[sep]" xs rule: join.induct)
  case 1
  then show ?case by simp
next
  case (2 x)
  then show ?case by (simp add: split_no_sep)
next
  case (3 x y ys)
  have "sep \<notin> set (render x)" using 3 by simp
  moreover have "split sep (join [sep] (y # ys)) = map render (y # ys)"
    using 3 by simp
  moreover have "join [sep] (x # y # ys) = render x @ sep # join [sep] (y # ys)"
    by simp
  ultimately show ?case by (simp add: split_append)
qed

lemma js_assign_nth: "js_assign xs i v ! i = v"
  by (simp add: js_assign_def nth_append)

lemma js_assign_length: "i < length (js_assign xs i v)"
  by (simp add: js_assign_def)

lemma js_assign_set: "x \<in> set (js_assign xs i v) \<Longrightarrow> x \<in> set xs \<or> x = None \<or> x = v"
  by (auto simp: js_assign_def dest: set_update_subset_insert [THEN subsetD] split: if_splits)

lemma overrideLine_color:
  assumes "ws \<noteq> []" and "CHR '','' \<notin> set (ws ! (i mod length ws))"
  shows "col (split CHR '','' (overrideLine ws i line)) defleetIdx_color
           = Some (ws ! (i mod length ws))"
proof -
  let ?w = "ws ! (i mod length ws)"
  let ?cols = "js_assign (map Some (split CHR '','' line)) defleetIdx_color (Some ?w)"
  have ne: "?cols \<noteq> []"
    using js_assign_length [of defleetIdx_color "map Some (split CHR '','' line)" "Some ?w"]
    by (cases ?cols) simp_all
  have "CHR '','' \<notin> set (render x)" if "x \<in> set ?cols" for x
  proof -
    from js_assign_set [OF that]
    consider f where "x = Some f" "f \<in> set (split CHR '','' line)" | "x = None" | "x = Some ?w"
      by auto
    then show ?thesis
      using assms(2) by cases (auto simp: render_def dest: split_fields)
  qed
  with ne have "split CHR '','' (join '','' ?cols) = map render ?cols"
    by (rule split_join)
  moreover have "map render ?cols ! defleetIdx_color = ?w"
    using js_assign_length [of defleetIdx_color "map Some (split CHR '','' line)" "Some ?w"]
    by (simp add: js_assign_nth render_def)
  moreover have "defleetIdx_color < length (map render ?cols)"
    using js_assign_length [of defleetIdx_color "map Some (split CHR '','' line)" "Some ?w"]
    by simp
  ultimately show ?thesis
    using assms(1) by (simp add: overrideLine_def wordAt_def col_def js_index_def)
qed

section \<open>Facts about the steps of the pipeline\<close>

lemma js_index_nat: "k < length xs \<Longrightarrow> js_index xs (int k) = Some (xs ! k)"
  by (simp add: js_index_def)

lemma colorLoop_in_range:
  "s + n \<le> length old \<Longrightarrow> i \<le> n \<Longrightarrow>
   colorLoop ws (int s) n i old =
     Inr (take (s + i) old
          @ map (\<lambda>(j, l). overrideLine ws j l) (enumerate i (take (n - i) (drop (s + i) old)))
          @ drop (s + n) old)"
proof (induction "n - i" arbitrary: i old)
  case 0
  then have "i = n" by simp
  then show ?case by (subst colorLoop.simps) simp
next
  case (Suc d)
  then have lt: "i < n" and k: "s + i < length old" by simp_all
  let ?v = "overrideLine ws i (old ! (s + i))"
  let ?old = "old[s + i := ?v]"
  have idx: "js_index old (int s + int i) = Some (old ! (s + i))"
    using js_index_nat [OF k] by simp
  have ih: "colorLoop ws (int s) n (Suc i) ?old =
     Inr (take (s + Suc i) ?old
          @ map (\<lambda>(j, l). overrideLine ws j l)
              (enumerate (Suc i) (take (n - Suc i) (drop (s + Suc i) ?old)))
          @ drop (s + n) ?old)"
    using Suc.hyps(1) [of "Suc i" ?old] Suc.hyps(2) Suc.prems lt by simp
  have t: "take (s + Suc i) ?old = take (s + i) old @ [?v]"
    using k by (simp add: take_Suc_conv_app_nth)
  have d1: "drop (s + Suc i) ?old = drop (s + Suc i) old" by simp
  have d2: "drop (s + n) ?old = drop (s + n) old" using lt by simp
  have split_batch: "take (n - i) (drop (s + i) old)
      = old ! (s + i) # take (n - Suc i) (drop (s + Suc i) old)"
  proof -
    have "drop (s + i) old = old ! (s + i) # drop (Suc (s + i)) old"
      using k by (simp add: Cons_nth_drop_Suc)
    moreover have "n - i = Suc (n - Suc i)" using lt by simp
    ultimately show ?thesis by simp
  qed
  have "colorLoop ws (int s) n i old = colorLoop ws (int s) n (Suc i) ?old"
    using lt idx by (subst colorLoop.simps) (simp add: nat_add_distrib)
  also note ih
  finally show ?case
    by (simp only: t d1 d2 split_batch) (simp add: enumerate_simps)
qed

lemma relIndex_nat: "relIndex len (int k) = min k len"
  by (simp add: relIndex_def)

lemma overrideInCsv_long:
  assumes "10 \<le> length old"
  shows "updateBatch old = drop (length old - 10) old"
    and "overrideInCsv ws old =
           Inr (take (length old - 10) old
                @ map (\<lambda>(j, l). overrideLine ws j l) (enumerate 0 (drop (length old - 10) old)))"
proof -
  have us: "updateStart old = int (length old - 10)"
    using assms by (simp add: updateStart_def)
  show ub: "updateBatch old = drop (length old - 10) old"
    unfolding updateBatch_def sliceFrom_def us relIndex_nat by simp
  have len: "length (updateBatch old) = 10" using assms by (simp add: ub)
  show "overrideInCsv ws old =
           Inr (take (length old - 10) old
                @ map (\<lambda>(j, l). overrideLine ws j l) (enumerate 0 (drop (length old - 10) old)))"
    unfolding overrideInCsv_def us len
    using colorLoop_in_range [of "length old - 10" 10 old 0 ws] assms by simp
qed

lemma overrideInCsv_empty: "overrideInCsv ws [] = Inr []"
  by (simp add: overrideInCsv_def updateBatch_def sliceFrom_def colorLoop.simps)

lemma updateBatch_short:
  assumes "length old < 10"
  shows "updateBatch old = drop (2 * length old - 10) old"
proof -
  have "relIndex (length old) (int (length old) - 10) = 2 * length old - 10"
    using assms by (auto simp: relIndex_def max_def)
  then show ?thesis by (simp add: updateBatch_def updateStart_def sliceFrom_def)
qed

lemma overrideInCsv_short:
  assumes "0 < length old" and "length old < 10"
  shows "overrideInCsv ws old = Inl TypeError"
proof -
  have "2 * length old - 10 < length old" using assms by arith
  then have "0 < length (updateBatch old)"
    using assms by (simp add: updateBatch_short)
  moreover have "js_index old (updateStart old + int 0) = None"
    using assms by (simp add: js_index_def updateStart_def)
  ultimately show ?thesis
    unfolding overrideInCsv_def by (subst colorLoop.simps) (simp add: Let_def)
qed

lemma cleanYesterday_eq:
  "cleanYesterday text =
     (let raw = filter (\<lambda>l. l \<noteq> []) (map trim (splitLines text)); r = tl raw
      in if 2 \<le> length r then take (length r - 2) r else r)"
proof -
  have sh: "shift xs = tl xs" for xs :: "string list"
    by (cases xs) (simp_all add: shift_def)
  show ?thesis
    by (simp add: cleanYesterday_def sh Let_def splice_last2)
qed

lemma defleet_eq:
  "defleet old = (if length old < 10 then ([], old)
                  else (drop (length old - 10) old, take (length old - 10) old))"
  by (simp add: defleet_def splice_last10)

section \<open>The update step on a short working tail\<close>

text \<open>
  Claim C1. The specification wants a working tail of fewer than 10 records to be taken
  whole as the update batch and overridden in place without error. In the source
  \<^verbatim>\<open>updateStart\<close> is negative on such a tail: \<^verbatim>\<open>slice\<close> counts it from the end, so the
  batch has \<open>min n (10 - n)\<close> of the \<open>n\<close> records, and the loop reads
  \<^verbatim>\<open>oldRecords[updateStart]\<close>, which is \<^verbatim>\<open>undefined\<close>, and throws a TypeError on a tail
  of 1 to 9 records.
\<close>

theorem small_tail_override_throws:
  "0 < length oldRecords \<Longrightarrow> length oldRecords < 10 \<Longrightarrow>
   length (updateBatch oldRecords) = min (length oldRecords) (10 - length oldRecords) \<and>
   overrideInCsv ws oldRecords = Inl TypeError"
  using overrideInCsv_short [of oldRecords ws]
  by (simp add: updateBatch_short)

theorem small_tail_override_throws_witness:
  "generateAndMerge ''11-03-2026-07-00'' ''csv'' ''r1\<newline>r2\<newline>r3''
     (Fetched ''3\<newline>a,b\<newline>c,d\<newline>e,f'')
   = (Inl TypeError,
      [WriteFile ''D:/sampledata'' ''em-fleet-11-03-2026-07-00.csv'' ''r1\<newline>r2\<newline>r3'',
       SaveJson ''update'' ''update'' ''11-03-2026-07-00''
         (VehicleJson [\<lparr> license_plate_number = None, license_plate_state = None,
                          year = None, make_ = None, model = None, color = Some ''delta'',
                          vin = None \<rparr>])])"
proof -
  have c: "cleanYesterday ''3\<newline>a,b\<newline>c,d\<newline>e,f'' = [''a,b'']"
    by (simp add: cleanYesterday_eq trim_def isWhiteSpace_def)
  have t: "overrideInCsv commonWords [''a,b''] = Inl TypeError"
    using small_tail_override_throws [of "[''a,b'']" commonWords] by simp
  have u: "updateData commonWords [''a,b'']
      = [\<lparr> license_plate_number = None, license_plate_state = None,
            year = None, make_ = None, model = None, color = Some ''delta'', vin = None \<rparr>]"
    by (simp add: updateData_def updateBatch_short updateOf_def col_def js_index_def
        defleetIdx_defs wordAt_def commonWords_def)
  show ?thesis
    by (simp add: generateAndMerge_def generateAndMergeWith_def loadYesterday_def c defleet_eq
        t u outputDir_def)
qed


section \<open>The Snapshot Partitioner\<close>

lemma lines_snapshot13:
  "filter (\<lambda>l. l \<noteq> []) (map trim (splitLines snapshot13))
     = [''13'', ''r1'', ''r2'', ''r3'', ''r4'', ''r5'', ''r6'', ''r7'', ''r8'', ''r9'', ''r10'',
        ''r11'', ''r12'', ''r13'']"
  by (simp add: snapshot13_def trim_def isWhiteSpace_def)

text \<open>
  Claim C5. Steps 4 and 5 of the source compute what the specification's partitioner
  describes: the trimmed non-blank lines, without the first line when there is one, without
  the last two when two or more are left, then the last 10 as the defleet batch when 10 or
  more are left and nothing otherwise. With no snapshot the tail is empty and the run
  completes.
\<close>

theorem partition_refines_spec:
  "defleet (loadYesterday NoRemoteFile) = spec_partition None \<and>
   defleet (loadYesterday (Fetched text)) = spec_partition (Some text) \<and>
   fst (generateAndMergeWith ws ts fmt todayCsv NoRemoteFile) = Inr ()"
proof -
  have a: "defleet (loadYesterday NoRemoteFile) = spec_partition None"
    by (simp add: loadYesterday_def defleet_eq spec_partition_def)
  have "tl xs = (if 1 \<le> length xs then tl xs else xs)" for xs :: "string list"
    by (cases xs) simp_all
  then have b: "defleet (loadYesterday (Fetched text)) = spec_partition (Some text)"
    by (simp add: loadYesterday_def defleet_eq spec_partition_def cleanYesterday_eq Let_def)
  have c: "fst (generateAndMergeWith ws ts fmt todayCsv NoRemoteFile) = Inr ()"
    by (simp add: generateAndMergeWith_def loadYesterday_def defleet_eq overrideInCsv_empty
        Let_def)
  from a b c show ?thesis by blast
qed

theorem partition_refines_spec_witness:
  "defleet (loadYesterday (Fetched snapshot13))
     = ([''r2'', ''r3'', ''r4'', ''r5'', ''r6'', ''r7'', ''r8'', ''r9'', ''r10'', ''r11''], [''r1'']) \<and>
   defleet (loadYesterday NoRemoteFile) = ([], [])"
proof -
  have "spec_partition (Some snapshot13)
     = ([''r2'', ''r3'', ''r4'', ''r5'', ''r6'', ''r7'', ''r8'', ''r9'', ''r10'', ''r11''], [''r1''])"
    by (simp add: spec_partition_def lines_snapshot13)
  moreover have "spec_partition None = ([], [])"
    by (simp add: spec_partition_def)
  ultimately show ?thesis
    using partition_refines_spec [of snapshot13 "[]" "[]" "[]" "[]"] by simp
qed

section \<open>How a run ends\<close>

lemma orEmpty_render: "orEmpty v = render v"
  by (simp add: orEmpty_def render_def split: option.splits)

lemma today3: "parseCsvRecords today3 = [''E,1,P1,GA,2024,Kia,Rio,red,V1'', ''x,y'', ''z'']"
  by (simp add: today3_def parseCsvRecords_def trim_def isWhiteSpace_def isDigit_def)

lemma updateData_Nil: "updateData ws old = [] \<longleftrightarrow> updateBatch old = []"
  by (simp add: updateData_def enumerate_eq_zip)

lemma run_sftp_failure:
  "generateAndMergeWith ws ts fmt todayCsv SftpFailure
     = (Inl IOFailure, [WriteFile outputDir (''em-fleet-'' @ ts @ ''.'' @ fmt) todayCsv])"
  by (simp add: generateAndMergeWith_def)

lemma run_throws:
  assumes "yest \<noteq> SftpFailure" and "overrideInCsv ws (tailOf yest) = Inl e"
  shows "generateAndMergeWith ws ts fmt todayCsv yest = (Inl e, writesBefore ws ts fmt todayCsv yest)"
  using assms
  by (simp add: generateAndMergeWith_def writesBefore_def tailOf_def updateData_Nil Let_def
      split_beta)

lemma run_completes:
  assumes "yest \<noteq> SftpFailure" and "overrideInCsv ws (tailOf yest) = Inr old'"
  shows "generateAndMergeWith ws ts fmt todayCsv yest =
     (Inr (),
      writesBefore ws ts fmt todayCsv yest @
      [SaveJson ''error_records'' ''error_records'' ts
         (ErrorJson (errorRecords (parseCsvRecords todayCsv))),
       SaveJson ''infleet_records'' ''infleet_records'' ts
         (VehicleJson (infleetRecords (parseCsvRecords todayCsv))),
       SaveJson ''fleet_records'' ''fleet_records'' ts
         (FleetJson (fleetRecords (infleetRecords (parseCsvRecords todayCsv)))),
       SaveJson ''history_records'' ''history_records'' ts
         (VehicleJson (infleetRecords (parseCsvRecords todayCsv) @ updateData ws (tailOf yest))),
       WriteFile mergedOutputDir (''em-fleet-'' @ ts @ ''.'' @ fmt)
         (mergedText old' (parseCsvRecords todayCsv))])"
  using assms
  by (simp add: generateAndMergeWith_def writesBefore_def tailOf_def updateData_Nil Let_def
      split_beta)

lemma run_completed_iff:
  "fst (generateAndMergeWith ws ts fmt todayCsv yest) = Inr () \<longleftrightarrow>
     yest \<noteq> SftpFailure \<and> (\<exists>old'. overrideInCsv ws (tailOf yest) = Inr old')"
proof (cases "yest = SftpFailure")
  case True
  then show ?thesis by (simp add: run_sftp_failure)
next
  case False
  then show ?thesis
    by (cases "overrideInCsv ws (tailOf yest)") (simp_all add: run_throws run_completes)
qed

lemma overrideInCsv_cases:
  "overrideInCsv ws old =
     (if old = [] then Inr []
      else if length old < 10 then Inl TypeError
      else Inr (take (length old - 10) old
                @ map (\<lambda>(j, l). overrideLine ws j l) (enumerate 0 (drop (length old - 10) old))))"
  by (simp add: overrideInCsv_empty overrideInCsv_short overrideInCsv_long)

section \<open>The merged snapshot\<close>

lemma tail23:
  "defleet (loadYesterday (Fetched snapshot23)) =
     ([''d1'', ''d2'', ''d3'', ''d4'', ''d5'', ''d6'', ''d7'', ''d8'', ''d9'', ''d10''],
      [''E,1,P01,GA,2024,Kia,Rio,red,V01'', ''E,2,P02,AL,2024,Kia,Rio,red,V02'', ''E,3,P03'',
       ''E,4,P04,AK,2024,Kia,Rio,red,V04'', ''E,5,P05,AZ,2024,Kia,Rio,red,V05'',
       ''E,6,P06,AR,2024,Kia,Rio,red,V06'', ''E,7,P07,CA,2024,Kia,Rio,red,V07'',
       ''E,8,P08,CO,2024,Kia,Rio,red,V08'', ''E,9,P09,CT,2024,Kia,Rio,red,V09'',
       ''E,10,P10,DE,2024,Kia,Rio,red,V10''])"
  by (simp add: loadYesterday_def cleanYesterday_eq defleet_eq snapshot23_def trim_def
      isWhiteSpace_def)

lemma replicate4: "replicate 4 x = [x, x, x, x]"
  by (simp add: numeral_eq_Suc)

lemma run23_completes:
  "fst (generateAndMergeWith ws ts fmt todayCsv (Fetched snapshot23)) = Inr ()"
  by (simp add: run_completed_iff tailOf_def tail23 overrideInCsv_cases)

lemma overrideInCsv_Inr:
  assumes "overrideInCsv ws old = Inr old'"
  shows "old' = take (length old - 10) old
                @ map (\<lambda>(j, l). overrideLine ws j l) (enumerate 0 (updateBatch old))"
    and "length old' = length old"
    and "old = [] \<or> 10 \<le> length old"
proof -
  show c: "old = [] \<or> 10 \<le> length old"
    using assms by (auto simp: overrideInCsv_cases split: if_splits)
  then show "old' = take (length old - 10) old
                @ map (\<lambda>(j, l). overrideLine ws j l) (enumerate 0 (updateBatch old))"
  proof
    assume "old = []"
    then show ?thesis using assms by (simp add: overrideInCsv_empty updateBatch_short)
  next
    assume "10 \<le> length old"
    then show ?thesis using assms by (simp add: overrideInCsv_long)
  qed
  then show "length old' = length old"
    using c by (auto simp: updateBatch_short overrideInCsv_long(1))
qed

text \<open>
  Claim C4. In every run that completes, the last file written is the merged snapshot: the
  lines joined by LF are one header line, then the mutated tail in order, then the new
  records in order. The header is the decimal rendering of the length of the mutated tail
  plus the number of new records: it is all digits and \<^verbatim>\<open>parseInt\<close> reads that sum
  back. The mutated tail has the length of the working tail and is the working tail with
  the lines of the update batch overridden in place.
\<close>

theorem merged_snapshot_layout:
  assumes "fst (generateAndMergeWith ws ts fmt todayCsv yest) = Inr ()"
  shows "\<exists>tail'.
     overrideInCsv ws (tailOf yest) = Inr tail' \<and>
     last (snd (generateAndMergeWith ws ts fmt todayCsv yest))
       = WriteFile mergedOutputDir (''em-fleet-'' @ ts @ ''.'' @ fmt)
           (join [CHR 0x0A]
              (map Some (toString (length tail' + length (parseCsvRecords todayCsv))
                         # tail' @ parseCsvRecords todayCsv))) \<and>
     parseInt10 (toString (length tail' + length (parseCsvRecords todayCsv)))
       = Some (int (length tail') + int (length (parseCsvRecords todayCsv))) \<and>
     list_all isDigit (toString (length tail' + length (parseCsvRecords todayCsv))) \<and>
     length tail' = length (tailOf yest) \<and>
     tail' = take (length (tailOf yest) - 10) (tailOf yest)
             @ map (\<lambda>(i, line). overrideLine ws i line)
                 (enumerate 0 (updateBatch (tailOf yest)))"
proof -
  from assms obtain tail' where ok: "yest \<noteq> SftpFailure"
    and t: "overrideInCsv ws (tailOf yest) = Inr tail'"
    by (auto simp: run_completed_iff)
  have "last (snd (generateAndMergeWith ws ts fmt todayCsv yest))
       = WriteFile mergedOutputDir (''em-fleet-'' @ ts @ ''.'' @ fmt)
           (join [CHR 0x0A]
              (map Some (toString (length tail' + length (parseCsvRecords todayCsv))
                         # tail' @ parseCsvRecords todayCsv)))"
    by (simp add: run_completes [OF ok t] mergedText_def mergedLines_def)
  moreover have "parseInt10 (toString (length tail' + length (parseCsvRecords todayCsv)))
       = Some (int (length tail') + int (length (parseCsvRecords todayCsv)))"
    by (simp add: parseInt10_toString)
  moreover note toString_digits [of "length tail' + length (parseCsvRecords todayCsv)"]
    overrideInCsv_Inr(2) [OF t] overrideInCsv_Inr(1) [OF t] t
  ultimately show ?thesis by (intro exI [of _ tail'] conjI)
qed

theorem merged_snapshot_layout_witness:
  "fst (generateAndMerge ''t'' ''csv'' today3 (Fetched snapshot23)) = Inr () \<and>
   last (snd (generateAndMerge ''t'' ''csv'' today3 (Fetched snapshot23)))
     = WriteFile ''D:/mergeddata'' ''em-fleet-t.csv''
         ''13\<newline>E,1,P01,GA,2024,Kia,Rio,delta,V01\<newline>E,2,P02,AL,2024,Kia,Rio,delta,V02\<newline>E,3,P03,,,,,delta\<newline>E,4,P04,AK,2024,Kia,Rio,delta,V04\<newline>E,5,P05,AZ,2024,Kia,Rio,delta,V05\<newline>E,6,P06,AR,2024,Kia,Rio,delta,V06\<newline>E,7,P07,CA,2024,Kia,Rio,delta,V07\<newline>E,8,P08,CO,2024,Kia,Rio,delta,V08\<newline>E,9,P09,CT,2024,Kia,Rio,delta,V09\<newline>E,10,P10,DE,2024,Kia,Rio,delta,V10\<newline>E,1,P1,GA,2024,Kia,Rio,red,V1\<newline>x,y\<newline>z''"
proof -
  have c: "fst (generateAndMergeWith commonWords ''t'' ''csv'' today3 (Fetched snapshot23)) = Inr ()"
    by (rule run23_completes)
  from merged_snapshot_layout [OF c] obtain tail' where
    l: "last (snd (generateAndMergeWith commonWords ''t'' ''csv'' today3 (Fetched snapshot23)))
       = WriteFile mergedOutputDir (''em-fleet-'' @ ''t'' @ ''.'' @ ''csv'')
           (join [CHR 0x0A]
              (map Some (toString (length tail' + length (parseCsvRecords today3))
                         # tail' @ parseCsvRecords today3)))"
    and n: "length tail' = length (tailOf (Fetched snapshot23))"
    and t: "tail' = take (length (tailOf (Fetched snapshot23)) - 10) (tailOf (Fetched snapshot23))
             @ map (\<lambda>(i, line). overrideLine commonWords i line)
                 (enumerate 0 (updateBatch (tailOf (Fetched snapshot23))))"
    by blast
  have t': "tail' =
      [''E,1,P01,GA,2024,Kia,Rio,delta,V01'', ''E,2,P02,AL,2024,Kia,Rio,delta,V02'',
       ''E,3,P03,,,,,delta'', ''E,4,P04,AK,2024,Kia,Rio,delta,V04'',
       ''E,5,P05,AZ,2024,Kia,Rio,delta,V05'', ''E,6,P06,AR,2024,Kia,Rio,delta,V06'',
       ''E,7,P07,CA,2024,Kia,Rio,delta,V07'', ''E,8,P08,CO,2024,Kia,Rio,delta,V08'',
       ''E,9,P09,CT,2024,Kia,Rio,delta,V09'', ''E,10,P10,DE,2024,Kia,Rio,delta,V10'']"
    unfolding t
    by (simp add: tailOf_def tail23 overrideInCsv_long(1) overrideLine_def js_assign_def
        defleetIdx_defs wordAt_def commonWords_def render_def replicate4)
  have m: "join [CHR 0x0A] (map Some (toString (length tail' + length (parseCsvRecords today3))
                         # tail' @ parseCsvRecords today3))
     = ''13\<newline>E,1,P01,GA,2024,Kia,Rio,delta,V01\<newline>E,2,P02,AL,2024,Kia,Rio,delta,V02\<newline>E,3,P03,,,,,delta\<newline>E,4,P04,AK,2024,Kia,Rio,delta,V04\<newline>E,5,P05,AZ,2024,Kia,Rio,delta,V05\<newline>E,6,P06,AR,2024,Kia,Rio,delta,V06\<newline>E,7,P07,CA,2024,Kia,Rio,delta,V07\<newline>E,8,P08,CO,2024,Kia,Rio,delta,V08\<newline>E,9,P09,CT,2024,Kia,Rio,delta,V09\<newline>E,10,P10,DE,2024,Kia,Rio,delta,V10\<newline>E,1,P1,GA,2024,Kia,Rio,red,V1\<newline>x,y\<newline>z''"
    unfolding t' today3 by (simp add: render_def toString.simps)
  show ?thesis
    unfolding generateAndMerge_def using c l unfolding m
    by (simp add: mergedOutputDir_def)
qed

section \<open>What a run emits\<close>

lemma savedNames_append: "savedNames (xs @ ys) = savedNames xs @ savedNames ys"
  by (induction xs rule: savedNames.induct) simp_all

lemma mergedWritten_append: "mergedWritten (xs @ ys) \<longleftrightarrow> mergedWritten xs \<or> mergedWritten ys"
  by (induction xs rule: mergedWritten.induct) auto

lemma dirs_differ: "outputDir \<noteq> mergedOutputDir"
  by (simp add: outputDir_def mergedOutputDir_def)

lemma savedNames_writesBefore:
  "savedNames (writesBefore ws ts fmt todayCsv yest)
     = (if fst (defleet (loadYesterday yest)) = [] then [] else [''defleet''])
       @ (if updateBatch (tailOf yest) = [] then [] else [''update''])"
  by (simp add: writesBefore_def savedNames_append)

lemma mergedWritten_writesBefore: "\<not> mergedWritten (writesBefore ws ts fmt todayCsv yest)"
  by (simp add: writesBefore_def mergedWritten_append dirs_differ)

text \<open>
  Claim C2, as the code has it. A run that completes has saved the error, infleet, fleet
  and history sets, in this order and also when they are empty, after the defleet set and
  the update set, each of which is saved only when it is not empty; the merged snapshot is
  its last write and no earlier write goes to the directory of the merged snapshots. A
  run that does not complete has not written a merged snapshot.
\<close>

theorem emission_of_a_run:
  "(fst (generateAndMergeWith ws ts fmt todayCsv yest) = Inr () \<longrightarrow>
      savedNames (snd (generateAndMergeWith ws ts fmt todayCsv yest))
        = (if fst (defleet (loadYesterday yest)) = [] then [] else [''defleet''])
          @ (if updateBatch (tailOf yest) = [] then [] else [''update''])
          @ [''error_records'', ''infleet_records'', ''fleet_records'', ''history_records''] \<and>
      (\<exists>text. last (snd (generateAndMergeWith ws ts fmt todayCsv yest))
                = WriteFile mergedOutputDir (''em-fleet-'' @ ts @ ''.'' @ fmt) text) \<and>
      \<not> mergedWritten (butlast (snd (generateAndMergeWith ws ts fmt todayCsv yest)))) \<and>
   (fst (generateAndMergeWith ws ts fmt todayCsv yest) \<noteq> Inr () \<longrightarrow>
      \<not> mergedWritten (snd (generateAndMergeWith ws ts fmt todayCsv yest)))"
proof (cases "yest = SftpFailure")
  case True
  then show ?thesis by (simp add: run_sftp_failure dirs_differ)
next
  case ok: False
  show ?thesis
  proof (cases "overrideInCsv ws (tailOf yest)")
    case (Inl e)
    then show ?thesis
      by (simp add: run_throws [OF ok] mergedWritten_writesBefore)
  next
    case (Inr old')
    then show ?thesis
      by (simp add: run_completes [OF ok] savedNames_append savedNames_writesBefore
          butlast_append mergedWritten_append mergedWritten_writesBefore)
  qed
qed

theorem emission_of_a_run_witness:
  "fst (generateAndMerge ''t'' ''csv'' today3 (Fetched snapshot23)) = Inr () \<and>
   savedNames (snd (generateAndMerge ''t'' ''csv'' today3 (Fetched snapshot23)))
     = [''defleet'', ''update'', ''error_records'', ''infleet_records'', ''fleet_records'',
        ''history_records''] \<and>
   fst (generateAndMerge ''t'' ''csv'' today3 SftpFailure) = Inl IOFailure \<and>
   \<not> mergedWritten (snd (generateAndMerge ''t'' ''csv'' today3 SftpFailure))"
proof -
  have c: "fst (generateAndMergeWith commonWords ''t'' ''csv'' today3 (Fetched snapshot23)) = Inr ()"
    by (rule run23_completes)
  have f: "fst (generateAndMergeWith commonWords ''t'' ''csv'' today3 SftpFailure) = Inl IOFailure"
    by (simp add: run_sftp_failure)
  have n: "length (tailOf (Fetched snapshot23)) = 10"
    by (simp add: tailOf_def tail23)
  have u: "updateBatch (tailOf (Fetched snapshot23)) \<noteq> []"
    using n by (auto simp: overrideInCsv_long(1))
  have d: "fst (defleet (loadYesterday (Fetched snapshot23))) \<noteq> []"
    by (simp add: tail23)
  from emission_of_a_run [of commonWords "''t''" "''csv''" today3 "Fetched snapshot23"] c u d
  have "savedNames (snd (generateAndMergeWith commonWords ''t'' ''csv'' today3 (Fetched snapshot23)))
     = [''defleet'', ''update'', ''error_records'', ''infleet_records'', ''fleet_records'',
        ''history_records'']"
    by simp
  moreover from emission_of_a_run [of commonWords "''t''" "''csv''" today3 SftpFailure] f
  have "\<not> mergedWritten (snd (generateAndMergeWith commonWords ''t'' ''csv'' today3 SftpFailure))"
    by simp
  ultimately show ?thesis using c f by (simp add: generateAndMerge_def)
qed

text \<open>
  Claim C2 as stated fails on empty inputs: with no snapshot and an empty text for today
  the run completes, and neither the defleet set nor the update set is saved, while the
  other four sets and the merged snapshot are written.
\<close>

theorem emission_counterexample:
  "fst (generateAndMerge ''t'' ''csv'' [] NoRemoteFile) = Inr () \<and>
   savedNames (snd (generateAndMerge ''t'' ''csv'' [] NoRemoteFile))
     = [''error_records'', ''infleet_records'', ''fleet_records'', ''history_records''] \<and>
   ''defleet'' \<notin> set (savedNames (snd (generateAndMerge ''t'' ''csv'' [] NoRemoteFile))) \<and>
   ''update'' \<notin> set (savedNames (snd (generateAndMerge ''t'' ''csv'' [] NoRemoteFile))) \<and>
   mergedWritten (snd (generateAndMerge ''t'' ''csv'' [] NoRemoteFile))"
proof -
  have t: "tailOf NoRemoteFile = []"
    by (simp add: tailOf_def loadYesterday_def defleet_eq)
  have "generateAndMergeWith commonWords ''t'' ''csv'' [] NoRemoteFile
     = (Inr (),
        [WriteFile outputDir ''em-fleet-t.csv'' [],
         SaveJson ''error_records'' ''error_records'' ''t'' (ErrorJson []),
         SaveJson ''infleet_records'' ''infleet_records'' ''t'' (VehicleJson []),
         SaveJson ''fleet_records'' ''fleet_records'' ''t'' (FleetJson []),
         SaveJson ''history_records'' ''history_records'' ''t'' (VehicleJson []),
         WriteFile mergedOutputDir ''em-fleet-t.csv'' ''0''])"
    by (simp add: run_completes [of NoRemoteFile commonWords "[]"] t overrideInCsv_empty
        writesBefore_def loadYesterday_def defleet_eq updateBatch_short parseCsvRecords_def
        trim_def errorRecords_def infleetRecords_def fleetRecords_def sliceFrom_last2
        slice_but_last2 updateData_def mergedText_def mergedLines_def toString.simps render_def)
  then show ?thesis by (simp add: generateAndMerge_def)
qed

section \<open>Determinism\<close>

text \<open>
  Claim C9. The word list, today's text and yesterday's snapshot fix how a run ends and
  what every file it writes holds, the merged snapshot and the record sets among them:
  two runs that differ in the clock reading and in the file extension end alike and write
  the same contents in the same order.
\<close>

theorem reconciliation_deterministic:
  "fst (generateAndMergeWith ws ts1 fmt1 todayCsv yest)
     = fst (generateAndMergeWith ws ts2 fmt2 todayCsv yest) \<and>
   map content (snd (generateAndMergeWith ws ts1 fmt1 todayCsv yest))
     = map content (snd (generateAndMergeWith ws ts2 fmt2 todayCsv yest))"
proof (cases "yest = SftpFailure")
  case True
  then show ?thesis by (simp add: run_sftp_failure)
next
  case ok: False
  have w: "map content (writesBefore ws ts1 fmt1 todayCsv yest)
      = map content (writesBefore ws ts2 fmt2 todayCsv yest)"
    by (simp add: writesBefore_def)
  show ?thesis
  proof (cases "overrideInCsv ws (tailOf yest)")
    case (Inl e)
    then show ?thesis by (simp add: run_throws [OF ok] w)
  next
    case (Inr old')
    then show ?thesis by (simp add: run_completes [OF ok] w)
  qed
qed

theorem reconciliation_deterministic_witness:
  "fst (generateAndMerge ''11-03-2026-07-00'' ''csv'' today3 (Fetched snapshot23))
     = fst (generateAndMerge ''11-04-2026-09-30'' ''txt'' today3 (Fetched snapshot23)) \<and>
   map content (snd (generateAndMerge ''11-03-2026-07-00'' ''csv'' today3 (Fetched snapshot23)))
     = map content (snd (generateAndMerge ''11-04-2026-09-30'' ''txt'' today3 (Fetched snapshot23)))"
  unfolding generateAndMerge_def
  by (rule reconciliation_deterministic)

section \<open>The parser of today's text\<close>

text \<open>
  Claim C10. Today's records are the trimmed lines of today's text that are not blank and
  not made of decimal digits only, so a line of digits is never among them; a run that
  completes builds the error, infleet, fleet and history sets and the body and the count
  of the merged snapshot from these records alone. Yesterday's lines are only trimmed and
  freed of blank lines before the first line and the last two are cut: lines of digits
  stay.
\<close>

theorem digit_lines_filtered:
  "parseCsvRecords text
     = filter (\<lambda>l. l \<noteq> [] \<and> \<not> list_all isDigit l) (map trim (splitLines text)) \<and>
   (list_all isDigit l \<longrightarrow> l \<notin> set (parseCsvRecords text)) \<and>
   cleanYesterday text
     = (let raw = filter (\<lambda>l. l \<noteq> []) (map trim (splitLines text)); r = tl raw
        in if 2 \<le> length r then take (length r - 2) r else r) \<and>
   (fst (generateAndMergeWith ws ts fmt text yest) = Inr () \<longrightarrow>
      (\<exists>tail'.
         snd (generateAndMergeWith ws ts fmt text yest)
           = writesBefore ws ts fmt text yest @
             [SaveJson ''error_records'' ''error_records'' ts
                (ErrorJson (errorRecords (parseCsvRecords text))),
              SaveJson ''infleet_records'' ''infleet_records'' ts
                (VehicleJson (infleetRecords (parseCsvRecords text))),
              SaveJson ''fleet_records'' ''fleet_records'' ts
                (FleetJson (fleetRecords (infleetRecords (parseCsvRecords text)))),
              SaveJson ''history_records'' ''history_records'' ts
                (VehicleJson (infleetRecords (parseCsvRecords text)
                              @ updateData ws (tailOf yest))),
              WriteFile mergedOutputDir (''em-fleet-'' @ ts @ ''.'' @ fmt)
                (join [CHR 0x0A]
                   (map Some (toString (length tail' + length (parseCsvRecords text))
                              # tail' @ parseCsvRecords text)))]))"
proof -
  have a: "parseCsvRecords text
     = filter (\<lambda>l. l \<noteq> [] \<and> \<not> list_all isDigit l) (map trim (splitLines text))"
    unfolding parseCsvRecords_def by (rule filter_cong) auto
  have b: "list_all isDigit l \<longrightarrow> l \<notin> set (parseCsvRecords text)"
    unfolding a by simp
  have d: "\<exists>tail'.
         snd (generateAndMergeWith ws ts fmt text yest)
           = writesBefore ws ts fmt text yest @
             [SaveJson ''error_records'' ''error_records'' ts
                (ErrorJson (errorRecords (parseCsvRecords text))),
              SaveJson ''infleet_records'' ''infleet_records'' ts
                (VehicleJson (infleetRecords (parseCsvRecords text))),
              SaveJson ''fleet_records'' ''fleet_records'' ts
                (FleetJson (fleetRecords (infleetRecords (parseCsvRecords text)))),
              SaveJson ''history_records'' ''history_records'' ts
                (VehicleJson (infleetRecords (parseCsvRecords text)
                              @ updateData ws (tailOf yest))),
              WriteFile mergedOutputDir (''em-fleet-'' @ ts @ ''.'' @ fmt)
                (join [CHR 0x0A]
                   (map Some (toString (length tail' + length (parseCsvRecords text))
                              # tail' @ parseCsvRecords text)))]"
    if "fst (generateAndMergeWith ws ts fmt text yest) = Inr ()"
  proof -
    from that obtain tail' where ok: "yest \<noteq> SftpFailure"
      and t: "overrideInCsv ws (tailOf yest) = Inr tail'"
      by (auto simp: run_completed_iff)
    show ?thesis
      by (rule exI [of _ tail']) (simp add: run_completes [OF ok t] mergedText_def mergedLines_def)
  qed
  from a b cleanYesterday_eq [of "text"] d show ?thesis by blast
qed

theorem digit_lines_filtered_witness:
  "splitLines today3 = [''E,1,P1,GA,2024,Kia,Rio,red,V1'', ''42'', [], ''x,y'', '' z ''] \<and>
   parseCsvRecords today3 = [''E,1,P1,GA,2024,Kia,Rio,red,V1'', ''x,y'', ''z''] \<and>
   ''42'' \<notin> set (parseCsvRecords today3) \<and>
   cleanYesterday ''2\<newline>42\<newline>q\<newline>e1\<newline>e2'' = [''42'', ''q''] \<and>
   last (snd (generateAndMerge ''t'' ''csv'' today3 NoRemoteFile))
     = WriteFile ''D:/mergeddata'' ''em-fleet-t.csv''
         ''3\<newline>E,1,P1,GA,2024,Kia,Rio,red,V1\<newline>x,y\<newline>z''"
proof -
  have c: "fst (generateAndMergeWith commonWords ''t'' ''csv'' today3 NoRemoteFile) = Inr ()"
    by (simp add: run_completed_iff tailOf_def loadYesterday_def defleet_eq overrideInCsv_empty)
  have t: "overrideInCsv commonWords (tailOf NoRemoteFile) = Inr []"
    by (simp add: tailOf_def loadYesterday_def defleet_eq overrideInCsv_empty)
  note f = digit_lines_filtered [of today3 "''42''" commonWords "''t''" "''csv''" NoRemoteFile]
  note g = digit_lines_filtered [of "''2\<newline>42\<newline>q\<newline>e1\<newline>e2''" "''42''" commonWords "''t''" "''csv''" NoRemoteFile]
  have s: "splitLines today3 = [''E,1,P1,GA,2024,Kia,Rio,red,V1'', ''42'', [], ''x,y'', '' z '']"
    by (simp add: today3_def)
  from f have "parseCsvRecords today3
     = filter (\<lambda>l. l \<noteq> [] \<and> \<not> list_all isDigit l) (map trim (splitLines today3))"
    by blast
  then have p: "parseCsvRecords today3 = [''E,1,P1,GA,2024,Kia,Rio,red,V1'', ''x,y'', ''z'']"
    unfolding s by (simp add: trim_def isWhiteSpace_def isDigit_def)
  from f have m: "''42'' \<notin> set (parseCsvRecords today3)"
    by (simp add: isDigit_def)
  from g have "cleanYesterday ''2\<newline>42\<newline>q\<newline>e1\<newline>e2''
     = (let raw = filter (\<lambda>l. l \<noteq> []) (map trim (splitLines ''2\<newline>42\<newline>q\<newline>e1\<newline>e2'')); r = tl raw
        in if 2 \<le> length r then take (length r - 2) r else r)"
    by blast
  then have y: "cleanYesterday ''2\<newline>42\<newline>q\<newline>e1\<newline>e2'' = [''42'', ''q'']"
    by (simp add: trim_def isWhiteSpace_def)
  have "last (snd (generateAndMergeWith commonWords ''t'' ''csv'' today3 NoRemoteFile))
     = WriteFile mergedOutputDir ''em-fleet-t.csv''
         (join [CHR 0x0A] (map Some (toString (0 + length (parseCsvRecords today3))
                              # [] @ parseCsvRecords today3)))"
    by (simp add: run_completes [OF _ t] mergedText_def mergedLines_def)
  then have l: "last (snd (generateAndMergeWith commonWords ''t'' ''csv'' today3 NoRemoteFile))
     = WriteFile ''D:/mergeddata'' ''em-fleet-t.csv''
         ''3\<newline>E,1,P1,GA,2024,Kia,Rio,red,V1\<newline>x,y\<newline>z''"
    by (simp add: p toString.simps render_def mergedOutputDir_def)
  from s p m y l show ?thesis by (simp add: generateAndMerge_def)
qed

section \<open>Short lines under the two schemas\<close>

lemma errorOf_total:
  "errorOf line
     = map (\<lambda>(key, idx). (key, if idx < length (split CHR '','' line)
                                  then split CHR '','' line ! idx else []))
         errorColumnMapping"
  by (simp add: errorOf_def orEmpty_def col_def js_index_def Let_def errorColumnMapping_def)

text \<open>
  Claim C3. The specification wants a column past the end of a line to read as the empty
  string under both schemas. The full schema of the error records does so
  (\<^verbatim>\<open>cols[idx] || ''\<close>); the vehicle schema of the defleet, update and infleet records
  reads \<^verbatim>\<open>cols[idx]\<close> alone, so on the line \<^verbatim>\<open>E,3,P03\<close> every field from the plate state
  on is \<^verbatim>\<open>undefined\<close>, not a string.
\<close>

theorem short_line_fields_undefined:
  "vehicleOf ''E,3,P03''
     = \<lparr> license_plate_number = Some ''P03'', license_plate_state = None, year = None,
         make_ = None, model = None, color = None, vin = None \<rparr> \<and>
   infleetRecords [''E,3,P03'', ''x'', ''y''] = [vehicleOf ''E,3,P03''] \<and>
   updateOf commonWords 2 ''E,3,P03''
     = \<lparr> license_plate_number = Some ''P03'', license_plate_state = None, year = None,
         make_ = None, model = None, color = Some ''delta'', vin = None \<rparr> \<and>
   map snd (errorOf ''E,3,P03'')
     = [''E'', ''3'', ''P03'', [], [], [], [], [], [], [], [], [], [], [], [], [], [], [], []]"
  by (simp add: vehicleOf_def updateOf_def infleetRecords_def slice_but_last2 col_def
      js_index_def defleetIdx_defs wordAt_def commonWords_def errorOf_total
      errorColumnMapping_def)

section \<open>The New-Batch Classifier\<close>

text \<open>
  The windows of the classifier: the error records come from the last two lines (all
  lines when there are fewer than two), the infleet records from the lines before those,
  the fleet records from the infleet records, and a run that completes saves these sets.
\<close>

lemma new_batch_windows:
  "errorRecords newRecords = map errorOf (drop (length newRecords - 2) newRecords) \<and>
   length (errorRecords newRecords) = min 2 (length newRecords) \<and>
   infleetRecords newRecords = map vehicleOf (take (length newRecords - 2) newRecords) \<and>
   take (length newRecords - 2) newRecords @ drop (length newRecords - 2) newRecords
     = newRecords \<and>
   fleetRecords (infleetRecords newRecords)
     = map (\<lambda>line. \<lparr> license_plate_number = col (split CHR '','' line) 2,
                      license_plate_state = col (split CHR '','' line) 3 \<rparr>)
         (take (length newRecords - 2) newRecords) \<and>
   errorOf line
     = map (\<lambda>(key, idx). (key, render (col (split CHR '','' line) idx))) errorColumnMapping \<and>
   (fst (generateAndMergeWith ws ts fmt todayCsv yest) = Inr () \<longrightarrow>
      take 3 (drop (length (writesBefore ws ts fmt todayCsv yest))
                (snd (generateAndMergeWith ws ts fmt todayCsv yest)))
        = [SaveJson ''error_records'' ''error_records'' ts
             (ErrorJson (errorRecords (parseCsvRecords todayCsv))),
           SaveJson ''infleet_records'' ''infleet_records'' ts
             (VehicleJson (infleetRecords (parseCsvRecords todayCsv))),
           SaveJson ''fleet_records'' ''fleet_records'' ts
             (FleetJson (fleetRecords (infleetRecords (parseCsvRecords todayCsv))))])"
proof -
  have e: "errorRecords newRecords = map errorOf (drop (length newRecords - 2) newRecords)"
    by (simp add: errorRecords_def sliceFrom_last2)
  have l: "length (errorRecords newRecords) = min 2 (length newRecords)"
    unfolding e by simp
  have i: "infleetRecords newRecords = map vehicleOf (take (length newRecords - 2) newRecords)"
    by (simp add: infleetRecords_def slice_but_last2)
  have f: "fleetRecords (infleetRecords newRecords)
     = map (\<lambda>line. \<lparr> license_plate_number = col (split CHR '','' line) 2,
                      license_plate_state = col (split CHR '','' line) 3 \<rparr>)
         (take (length newRecords - 2) newRecords)"
    unfolding i by (simp add: fleetRecords_def vehicleOf_def defleetIdx_defs Let_def)
  have p: "errorOf line
     = map (\<lambda>(key, idx). (key, render (col (split CHR '','' line) idx))) errorColumnMapping"
    by (simp add: errorOf_def orEmpty_render Let_def)
  have r: "take 3 (drop (length (writesBefore ws ts fmt todayCsv yest))
                (snd (generateAndMergeWith ws ts fmt todayCsv yest)))
        = [SaveJson ''error_records'' ''error_records'' ts
             (ErrorJson (errorRecords (parseCsvRecords todayCsv))),
           SaveJson ''infleet_records'' ''infleet_records'' ts
             (VehicleJson (infleetRecords (parseCsvRecords todayCsv))),
           SaveJson ''fleet_records'' ''fleet_records'' ts
             (FleetJson (fleetRecords (infleetRecords (parseCsvRecords todayCsv))))]"
    if "fst (generateAndMergeWith ws ts fmt todayCsv yest) = Inr ()"
  proof -
    from that obtain old' where "yest \<noteq> SftpFailure" "overrideInCsv ws (tailOf yest) = Inr old'"
      by (auto simp: run_completed_iff)
    then show ?thesis by (simp add: run_completes)
  qed
  from e l i f p r show ?thesis by simp
qed

lemma errorOf_spec: "errorOf line = spec_project errorColumnMapping line"
  by (auto simp: errorOf_def spec_project_def orEmpty_def Let_def split: option.splits)

lemma col_Some: "i < length cols \<Longrightarrow> col cols i = Some (cols ! i)"
  by (simp add: col_def js_index_def)

lemma vehicleOf_long_line:
  assumes "9 \<le> length (split CHR '','' line)"
  shows "vehicleOf line = spec_vehicle line"
  using assms
  by (simp add: vehicleOf_def spec_vehicle_def spec_project_def vehicleSchema_def
      defleetIdx_defs col_Some Let_def)

text \<open>
  Claim C7. The specification wants the infleet records to be the lines before the last
  two read through the vehicle schema, where a missing column reads as the empty string,
  and the fleet records to be their plate number and plate state. The windows are as the
  claim says, and so are the error records under the full schema. On the short line
  \<^verbatim>\<open>E,3,P03\<close> the source's infleet record has \<^verbatim>\<open>undefined\<close> where the schema's projection
  has the empty string, and the fleet record takes the \<^verbatim>\<open>undefined\<close> plate state over.
\<close>

theorem short_line_infleet_projection:
  "infleetRecords batch4
     = [\<lparr> license_plate_number = Some ''P1'', license_plate_state = Some ''GA'',
           year = Some ''2024'', make_ = Some ''Kia'', model = Some ''Rio'',
           color = Some ''red'', vin = Some ''V1'' \<rparr>,
        \<lparr> license_plate_number = Some ''P03'', license_plate_state = None,
           year = None, make_ = None, model = None, color = None, vin = None \<rparr>] \<and>
   map spec_vehicle (take (length batch4 - 2) batch4)
     = [\<lparr> license_plate_number = Some ''P1'', license_plate_state = Some ''GA'',
           year = Some ''2024'', make_ = Some ''Kia'', model = Some ''Rio'',
           color = Some ''red'', vin = Some ''V1'' \<rparr>,
        \<lparr> license_plate_number = Some ''P03'', license_plate_state = Some [],
           year = Some [], make_ = Some [], model = Some [], color = Some [],
           vin = Some [] \<rparr>] \<and>
   fleetRecords (infleetRecords batch4)
     = [\<lparr> license_plate_number = Some ''P1'', license_plate_state = Some ''GA'' \<rparr>,
        \<lparr> license_plate_number = Some ''P03'', license_plate_state = None \<rparr>] \<and>
   errorRecords batch4 = map (spec_project errorColumnMapping) [''x,y'', ''z''] \<and>
   map (map snd) (errorRecords batch4)
     = [[''x'', ''y'', [], [], [], [], [], [], [], [], [], [], [], [], [], [], [], [], []],
        [''z'', [], [], [], [], [], [], [], [], [], [], [], [], [], [], [], [], [], []]]"
proof -
  have i: "infleetRecords batch4
     = [\<lparr> license_plate_number = Some ''P1'', license_plate_state = Some ''GA'',
           year = Some ''2024'', make_ = Some ''Kia'', model = Some ''Rio'',
           color = Some ''red'', vin = Some ''V1'' \<rparr>,
        \<lparr> license_plate_number = Some ''P03'', license_plate_state = None,
           year = None, make_ = None, model = None, color = None, vin = None \<rparr>]"
    by (simp add: infleetRecords_def slice_but_last2 batch4_def vehicleOf_def col_def
        js_index_def defleetIdx_defs)
  have s: "map spec_vehicle (take (length batch4 - 2) batch4)
     = [\<lparr> license_plate_number = Some ''P1'', license_plate_state = Some ''GA'',
           year = Some ''2024'', make_ = Some ''Kia'', model = Some ''Rio'',
           color = Some ''red'', vin = Some ''V1'' \<rparr>,
        \<lparr> license_plate_number = Some ''P03'', license_plate_state = Some [],
           year = Some [], make_ = Some [], model = Some [], color = Some [],
           vin = Some [] \<rparr>]"
    by (simp add: batch4_def spec_vehicle_def spec_project_def vehicleSchema_def col_def
        js_index_def defleetIdx_defs)
  have f: "fleetRecords (infleetRecords batch4)
     = [\<lparr> license_plate_number = Some ''P1'', license_plate_state = Some ''GA'' \<rparr>,
        \<lparr> license_plate_number = Some ''P03'', license_plate_state = None \<rparr>]"
    unfolding i by (simp add: fleetRecords_def)
  have e: "errorRecords batch4 = map (spec_project errorColumnMapping) [''x,y'', ''z'']"
    by (simp add: errorRecords_def sliceFrom_last2 batch4_def errorOf_spec)
  have v: "map (map snd) (errorRecords batch4)
     = [[''x'', ''y'', [], [], [], [], [], [], [], [], [], [], [], [], [], [], [], [], []],
        [''z'', [], [], [], [], [], [], [], [], [], [], [], [], [], [], [], [], [], []]]"
    unfolding e
    by (simp add: spec_project_def errorColumnMapping_def col_def js_index_def)
  from i s f e v show ?thesis by simp
qed

section \<open>The colour override\<close>

lemma updateData_nth:
  "i < length (updateBatch old) \<Longrightarrow> updateData ws old ! i = updateOf ws i (updateBatch old ! i)"
  by (simp add: updateData_def nth_enumerate_eq)

lemma updateStart_nat:
  "old = [] \<or> 10 \<le> length old \<Longrightarrow> i < length (updateBatch old) \<Longrightarrow>
   nat (updateStart old) = length old - 10 \<and> 10 \<le> length old \<and> i < 10"
  by (auto simp: updateStart_def updateBatch_short overrideInCsv_long(1))

lemma mutated_tail_nth:
  assumes "overrideInCsv ws old = Inr old'" and "i < length (updateBatch old)"
  shows "old' ! (nat (updateStart old) + i) = overrideLine ws i (updateBatch old ! i)"
proof -
  note c = overrideInCsv_Inr(3) [OF assms(1)]
  from updateStart_nat [OF c assms(2)]
  have s: "nat (updateStart old) = length old - 10" and l: "10 \<le> length old" by simp_all
  let ?a = "take (length old - 10) old"
  let ?b = "map (\<lambda>(j, l). overrideLine ws j l) (enumerate 0 (updateBatch old))"
  have "old' = ?a @ ?b" by (rule overrideInCsv_Inr(1) [OF assms(1)])
  moreover have "length ?a = length old - 10" by simp
  ultimately have "old' ! (length old - 10 + i) = ?b ! i"
    by (metis nth_append_length_plus)
  also have "\<dots> = overrideLine ws i (updateBatch old ! i)"
    using assms(2) by (simp add: nth_enumerate_eq)
  finally show ?thesis by (simp add: s)
qed

text \<open>
  Where the run completes, the override reaches both sinks: record \<open>i\<close> of the update batch
  has the colour \<open>ws ! (i mod length ws)\<close> in the update set, and its line in the merged
  snapshot is the old line with column 7 set to the same word.
\<close>

lemma color_override_when_completed:
  assumes "ws \<noteq> []" and "i < length (updateBatch (tailOf yest))"
  shows
    "color (updateData ws (tailOf yest) ! i) = Some (ws ! (i mod length ws)) \<and>
     color (updateData commonWords (tailOf yest) ! i) = Some ''delta'' \<and>
     (yest \<noteq> SftpFailure \<longrightarrow>
        SaveJson ''update'' ''update'' ts (VehicleJson (updateData ws (tailOf yest)))
          \<in> set (snd (generateAndMergeWith ws ts fmt todayCsv yest))) \<and>
     (fst (generateAndMergeWith ws ts fmt todayCsv yest) = Inr () \<longrightarrow>
        (\<exists>tail'.
           last (snd (generateAndMergeWith ws ts fmt todayCsv yest))
             = WriteFile mergedOutputDir (''em-fleet-'' @ ts @ ''.'' @ fmt)
                 (mergedText tail' (parseCsvRecords todayCsv)) \<and>
           mergedLines tail' (parseCsvRecords todayCsv)
               ! Suc (nat (updateStart (tailOf yest)) + i)
             = overrideLine ws i (updateBatch (tailOf yest) ! i) \<and>
           (CHR '','' \<notin> set (ws ! (i mod length ws)) \<longrightarrow>
              col (split CHR '',''
                     (mergedLines tail' (parseCsvRecords todayCsv)
                        ! Suc (nat (updateStart (tailOf yest)) + i)))
                  defleetIdx_color
                = Some (ws ! (i mod length ws)))))"
proof -
  have a: "color (updateData ws (tailOf yest) ! i) = Some (ws ! (i mod length ws))"
    using assms by (simp add: updateData_nth updateOf_def wordAt_def Let_def)
  have b: "color (updateData commonWords (tailOf yest) ! i) = Some ''delta''"
    using assms(2) by (simp add: updateData_nth updateOf_def wordAt_def Let_def commonWords_def)
  have c: "SaveJson ''update'' ''update'' ts (VehicleJson (updateData ws (tailOf yest)))
          \<in> set (snd (generateAndMergeWith ws ts fmt todayCsv yest))"
    if ok: "yest \<noteq> SftpFailure"
  proof -
    have "SaveJson ''update'' ''update'' ts (VehicleJson (updateData ws (tailOf yest)))
          \<in> set (writesBefore ws ts fmt todayCsv yest)"
      using assms(2) by (auto simp: writesBefore_def)
    then show ?thesis
      by (cases "overrideInCsv ws (tailOf yest)")
         (simp_all add: run_throws [OF ok] run_completes [OF ok])
  qed
  have d: "\<exists>tail'.
           last (snd (generateAndMergeWith ws ts fmt todayCsv yest))
             = WriteFile mergedOutputDir (''em-fleet-'' @ ts @ ''.'' @ fmt)
                 (mergedText tail' (parseCsvRecords todayCsv)) \<and>
           mergedLines tail' (parseCsvRecords todayCsv)
               ! Suc (nat (updateStart (tailOf yest)) + i)
             = overrideLine ws i (updateBatch (tailOf yest) ! i) \<and>
           (CHR '','' \<notin> set (ws ! (i mod length ws)) \<longrightarrow>
              col (split CHR '',''
                     (mergedLines tail' (parseCsvRecords todayCsv)
                        ! Suc (nat (updateStart (tailOf yest)) + i)))
                  defleetIdx_color
                = Some (ws ! (i mod length ws)))"
    if "fst (generateAndMergeWith ws ts fmt todayCsv yest) = Inr ()"
  proof -
    from that obtain tail' where ok: "yest \<noteq> SftpFailure"
      and t: "overrideInCsv ws (tailOf yest) = Inr tail'"
      by (auto simp: run_completed_iff)
    note c = overrideInCsv_Inr(3) [OF t]
    from updateStart_nat [OF c assms(2)]
    have s: "nat (updateStart (tailOf yest)) = length (tailOf yest) - 10"
      and l: "10 \<le> length (tailOf yest)" and i: "i < 10" by simp_all
    have inb: "nat (updateStart (tailOf yest)) + i < length tail'"
      using s l i by (simp add: overrideInCsv_Inr(2) [OF t])
    have line: "mergedLines tail' (parseCsvRecords todayCsv)
               ! Suc (nat (updateStart (tailOf yest)) + i)
             = overrideLine ws i (updateBatch (tailOf yest) ! i)"
      using inb mutated_tail_nth [OF t assms(2)] by (simp add: mergedLines_def nth_append)
    have "last (snd (generateAndMergeWith ws ts fmt todayCsv yest))
             = WriteFile mergedOutputDir (''em-fleet-'' @ ts @ ''.'' @ fmt)
                 (mergedText tail' (parseCsvRecords todayCsv))"
      by (simp add: run_completes [OF ok t])
    moreover note line
    moreover have "CHR '','' \<notin> set (ws ! (i mod length ws)) \<longrightarrow>
              col (split CHR '',''
                     (mergedLines tail' (parseCsvRecords todayCsv)
                        ! Suc (nat (updateStart (tailOf yest)) + i)))
                  defleetIdx_color
                = Some (ws ! (i mod length ws))"
      unfolding line using overrideLine_color [OF assms(1)] by simp
    ultimately show ?thesis by (intro exI [of _ tail'] conjI)
  qed
  from a b c d show ?thesis by blast
qed

lemma color_override_example:
  "color (updateData [''red'', ''green'', ''blue''] (tailOf (Fetched snapshot23)) ! 4)
     = Some ''green'' \<and>
   color (updateData commonWords (tailOf (Fetched snapshot23)) ! 4) = Some ''delta'' \<and>
   (\<exists>tail'.
      last (snd (generateAndMergeWith [''red'', ''green'', ''blue''] ''t'' ''csv'' today3
                  (Fetched snapshot23)))
        = WriteFile mergedOutputDir ''em-fleet-t.csv'' (mergedText tail' (parseCsvRecords today3)) \<and>
      mergedLines tail' (parseCsvRecords today3) ! 5 = ''E,5,P05,AZ,2024,Kia,Rio,green,V05'' \<and>
      col (split CHR '','' (mergedLines tail' (parseCsvRecords today3) ! 5)) defleetIdx_color
        = Some ''green'')"
proof -
  let ?ws = "[''red'', ''green'', ''blue'']"
  have n: "length (tailOf (Fetched snapshot23)) = 10"
    by (simp add: tailOf_def tail23)
  have ub: "updateBatch (tailOf (Fetched snapshot23)) = tailOf (Fetched snapshot23)"
    using n by (simp add: overrideInCsv_long(1))
  have i: "4 < length (updateBatch (tailOf (Fetched snapshot23)))"
    using n by (simp add: ub)
  have us: "nat (updateStart (tailOf (Fetched snapshot23))) = 0"
    using n by (simp add: updateStart_def)
  have w: "?ws ! (4 mod length ?ws) = ''green''" by simp
  have l: "overrideLine ?ws 4 (updateBatch (tailOf (Fetched snapshot23)) ! 4)
      = ''E,5,P05,AZ,2024,Kia,Rio,green,V05''"
    unfolding ub
    by (simp add: tailOf_def tail23 overrideLine_def js_assign_def defleetIdx_defs wordAt_def
        render_def)
  have c: "fst (generateAndMergeWith ?ws ''t'' ''csv'' today3 (Fetched snapshot23)) = Inr ()"
    by (rule run23_completes)
  have ne: "?ws \<noteq> []" by simp
  note t = color_override_when_completed [OF ne i, of "''t''" "''csv''" today3]
  from t c obtain tail' where
    "last (snd (generateAndMergeWith ?ws ''t'' ''csv'' today3 (Fetched snapshot23)))
       = WriteFile mergedOutputDir (''em-fleet-'' @ ''t'' @ ''.'' @ ''csv'')
           (mergedText tail' (parseCsvRecords today3))"
    and "mergedLines tail' (parseCsvRecords today3)
               ! Suc (nat (updateStart (tailOf (Fetched snapshot23))) + 4)
             = overrideLine ?ws 4 (updateBatch (tailOf (Fetched snapshot23)) ! 4)"
    and "CHR '','' \<notin> set (?ws ! (4 mod length ?ws)) \<longrightarrow>
              col (split CHR '',''
                     (mergedLines tail' (parseCsvRecords today3)
                        ! Suc (nat (updateStart (tailOf (Fetched snapshot23))) + 4)))
                  defleetIdx_color
                = Some (?ws ! (4 mod length ?ws))"
    by blast
  then have "last (snd (generateAndMergeWith ?ws ''t'' ''csv'' today3 (Fetched snapshot23)))
        = WriteFile mergedOutputDir ''em-fleet-t.csv'' (mergedText tail' (parseCsvRecords today3)) \<and>
      mergedLines tail' (parseCsvRecords today3) ! 5 = ''E,5,P05,AZ,2024,Kia,Rio,green,V05'' \<and>
      col (split CHR '','' (mergedLines tail' (parseCsvRecords today3) ! 5)) defleetIdx_color
        = Some ''green''"
    unfolding us l w by simp
  moreover from t have "color (updateData ?ws (tailOf (Fetched snapshot23)) ! 4)
     = Some (?ws ! (4 mod length ?ws))"
    and "color (updateData commonWords (tailOf (Fetched snapshot23)) ! 4) = Some ''delta''"
    by blast+
  ultimately show ?thesis unfolding w by blast
qed

lemma updateData_colors:
  "ws \<noteq> [] \<Longrightarrow>
   map color (updateData ws old)
     = map (\<lambda>i. Some (ws ! (i mod length ws))) [0..<length (updateBatch old)]"
  by (rule nth_equalityI)
     (simp_all add: updateData_def nth_enumerate_eq updateOf_def wordAt_def Let_def)

text \<open>
  Claim C6. The specification wants the colour of record \<open>i\<close> of the update batch,
  \<open>ws ! (i mod length ws)\<close>, both in the emitted update set and in the line of the record
  in the merged snapshot. On a working tail of 1 to 9 records the source saves the update
  set with these colours and then throws in the loop that should write them into the
  lines: the run ends with a TypeError and writes no merged snapshot, so no merged line
  carries the colour.
\<close>

theorem short_tail_color_not_merged:
  assumes "ws \<noteq> []" and "yest \<noteq> SftpFailure"
    and "0 < length (tailOf yest)" and "length (tailOf yest) < 10"
  shows
    "updateBatch (tailOf yest) \<noteq> [] \<and>
     map color (updateData ws (tailOf yest))
       = map (\<lambda>i. Some (ws ! (i mod length ws))) [0..<length (updateBatch (tailOf yest))] \<and>
     SaveJson ''update'' ''update'' ts (VehicleJson (updateData ws (tailOf yest)))
       \<in> set (snd (generateAndMergeWith ws ts fmt todayCsv yest)) \<and>
     fst (generateAndMergeWith ws ts fmt todayCsv yest) = Inl TypeError \<and>
     \<not> mergedWritten (snd (generateAndMergeWith ws ts fmt todayCsv yest))"
proof -
  have t: "overrideInCsv ws (tailOf yest) = Inl TypeError"
    using assms(3,4) by (rule overrideInCsv_short)
  have "2 * length (tailOf yest) - 10 < length (tailOf yest)" using assms(3,4) by arith
  then have b: "updateBatch (tailOf yest) \<noteq> []"
    using assms(4) by (simp add: updateBatch_short)
  then have "SaveJson ''update'' ''update'' ts (VehicleJson (updateData ws (tailOf yest)))
       \<in> set (writesBefore ws ts fmt todayCsv yest)"
    by (simp add: writesBefore_def)
  with b updateData_colors [OF assms(1), of "tailOf yest"] show ?thesis
    by (simp add: run_throws [OF assms(2) t] mergedWritten_writesBefore)
qed

theorem short_tail_color_not_merged_witness:
  "updateBatch (tailOf (Fetched snapshot3)) = [''a,b''] \<and>
   map color (updateData commonWords (tailOf (Fetched snapshot3))) = [Some ''delta''] \<and>
   SaveJson ''update'' ''update'' ''t''
       (VehicleJson (updateData commonWords (tailOf (Fetched snapshot3))))
     \<in> set (snd (generateAndMerge ''t'' ''csv'' today3 (Fetched snapshot3))) \<and>
   fst (generateAndMerge ''t'' ''csv'' today3 (Fetched snapshot3)) = Inl TypeError \<and>
   \<not> mergedWritten (snd (generateAndMerge ''t'' ''csv'' today3 (Fetched snapshot3)))"
proof -
  have tl: "tailOf (Fetched snapshot3) = [''a,b'']"
    by (simp add: tailOf_def loadYesterday_def cleanYesterday_eq defleet_eq snapshot3_def
        trim_def isWhiteSpace_def)
  have ub: "updateBatch (tailOf (Fetched snapshot3)) = [''a,b'']"
    by (simp add: tl updateBatch_short)
  have ne: "commonWords \<noteq> []" by (simp add: commonWords_def)
  have ok: "Fetched snapshot3 \<noteq> SftpFailure" by simp
  have p: "0 < length (tailOf (Fetched snapshot3))" and q: "length (tailOf (Fetched snapshot3)) < 10"
    by (simp_all add: tl)
  note r = short_tail_color_not_merged [OF ne ok p q, of "''t''" "''csv''" today3]
  from r have "map color (updateData commonWords (tailOf (Fetched snapshot3)))
       = map (\<lambda>i. Some (commonWords ! (i mod length commonWords)))
           [0..<length (updateBatch (tailOf (Fetched snapshot3)))]"
    by blast
  then have c: "map color (updateData commonWords (tailOf (Fetched snapshot3))) = [Some ''delta'']"
    unfolding ub by (simp add: commonWords_def)
  from r ub c show ?thesis by (simp add: generateAndMerge_def)
qed

section \<open>The entry point\<close>

lemma parseInt10_None:
  "parseInt10 s = None \<longleftrightarrow>
     (let body = dropWhile isWhiteSpace s;
          rest = (if body \<noteq> [] \<and> (hd body = CHR ''+'' \<or> hd body = CHR ''-'') then tl body
                  else body)
      in rest = [] \<or> \<not> isDigit (hd rest))"
  by (simp add: parseInt10_def Let_def takeWhile_eq_Nil_iff)

lemma parseInt_NaN: "parseInt s = NaN \<longleftrightarrow> parseInt10 s = None"
  by (simp add: parseInt_def toNumber_def split: option.splits)

text \<open>
  Claim C8, as the code has it. The usage message and exit status 1 are the result exactly
  when \<^verbatim>\<open>parseInt\<close> gives NaN for the count argument (it is missing, or no decimal digit
  follows its leading white space and optional sign) or the format, lower-cased and
  \<^verbatim>\<open>csv\<close> when missing or empty, is neither \<^verbatim>\<open>csv\<close> nor \<^verbatim>\<open>txt\<close>. Every other invocation
  calls \<^verbatim>\<open>generateAndMerge\<close> with that format and with the Number that \<^verbatim>\<open>parseInt\<close>
  returns: the integer read when its magnitude is below \<open>2^53\<close>, and otherwise the double
  that stands for it, of the same sign.
\<close>

theorem entry_point_rejects:
  "(main argv = UsageExit \<longleftrightarrow>
      parseInt10 (if argv = [] then ''undefined'' else argv ! 0) = None \<or>
      toLowerCase (if length argv < 2 \<or> argv ! 1 = [] then ''csv'' else argv ! 1)
        \<notin> set [''csv'', ''txt'']) \<and>
   (main argv \<noteq> UsageExit \<longrightarrow>
      (\<exists>v. parseInt10 (argv ! 0) = Some v \<and>
         main argv =
           Run (if \<bar>v\<bar> < 2 ^ 53 then Integer v else Huge (v < 0))
             (toLowerCase (if length argv < 2 \<or> argv ! 1 = [] then ''csv'' else argv ! 1)))) \<and>
   (parseInt10 s = None \<longleftrightarrow>
      (let body = dropWhile isWhiteSpace s;
           rest = (if body \<noteq> [] \<and> (hd body = CHR ''+'' \<or> hd body = CHR ''-'') then tl body
                   else body)
       in rest = [] \<or> \<not> isDigit (hd rest)))"
proof -
  let ?count = "if argv = [] then ''undefined'' else argv ! 0"
  let ?fmt = "toLowerCase (if length argv < 2 \<or> argv ! 1 = [] then ''csv'' else argv ! 1)"
  have c: "(case js_index argv 0 of None \<Rightarrow> ''undefined'' | Some s \<Rightarrow> s) = ?count"
    by (simp add: js_index_def)
  have f: "toLowerCase (case js_index argv 1 of None \<Rightarrow> ''csv''
                                               | Some s \<Rightarrow> if s = [] then ''csv'' else s)
      = ?fmt"
    by (auto simp: js_index_def)
  have u: "parseInt10 ''undefined'' = None"
    by (simp add: parseInt10_def isWhiteSpace_def isDigit_def)
  have m: "main argv =
     (if parseInt10 ?count = None \<or> ?fmt \<notin> set [''csv'', ''txt''] then UsageExit
      else Run (parseInt ?count) ?fmt)"
    unfolding main_def Let_def c f by (simp add: parseInt_NaN)
  have a: "main argv = UsageExit \<longleftrightarrow>
      parseInt10 ?count = None \<or> ?fmt \<notin> set [''csv'', ''txt'']"
    by (subst m) simp
  have b: "\<exists>v. parseInt10 (argv ! 0) = Some v \<and>
         main argv = Run (if \<bar>v\<bar> < 2 ^ 53 then Integer v else Huge (v < 0)) ?fmt"
    if "main argv \<noteq> UsageExit"
  proof -
    from that a have ok: "parseInt10 ?count \<noteq> None" and fm: "?fmt \<in> set [''csv'', ''txt'']"
      by auto
    from ok u have ne: "argv \<noteq> []" by auto
    with ok obtain v where p: "parseInt10 (argv ! 0) = Some v" by auto
    then have "parseInt (argv ! 0) = (if \<bar>v\<bar> < 2 ^ 53 then Integer v else Huge (v < 0))"
      by (simp add: parseInt_def toNumber_def)
    with ne fm p have "main argv
        = Run (if \<bar>v\<bar> < 2 ^ 53 then Integer v else Huge (v < 0)) ?fmt"
      by (subst m) auto
    with p show ?thesis by blast
  qed
  from a b parseInt10_None [of s] show ?thesis by blast
qed

theorem entry_point_rejects_witness:
  "main [''abc'', ''csv''] = UsageExit \<and> main [] = UsageExit \<and>
   main [''5'', ''json''] = UsageExit \<and> main [''5'', ''TXT''] = Run (Integer 5) ''txt'' \<and>
   main [''7''] = Run (Integer 7) ''csv'' \<and>
   main [''9007199254740993'', ''csv''] = Run (Huge False) ''csv''"
proof -
  have d: "parseInt10 ''abc'' = None" "parseInt10 ''5'' = Some 5" "parseInt10 ''7'' = Some 7"
    "parseInt10 ''undefined'' = None" "parseInt10 ''9007199254740993'' = Some 9007199254740993"
    by (simp_all add: parseInt10_def isWhiteSpace_def isDigit_def digitsValue_def)
  have l: "toLowerCase ''csv'' = ''csv''" "toLowerCase ''json'' = ''json''"
    "toLowerCase ''TXT'' = ''txt''"
    by code_simp+
  from entry_point_rejects [of "[''abc'', ''csv'']" "[]"]
  have 1: "main [''abc'', ''csv''] = UsageExit" by (simp add: d l)
  from entry_point_rejects [of "[]" "[]"]
  have 2: "main [] = UsageExit" by (simp add: d l)
  from entry_point_rejects [of "[''5'', ''json'']" "[]"]
  have 3: "main [''5'', ''json''] = UsageExit" by (simp add: d l)
  from entry_point_rejects [of "[''5'', ''TXT'']" "[]"]
  have 4: "main [''5'', ''TXT''] = Run (Integer 5) ''txt''" by (simp add: d l)
  from entry_point_rejects [of "[''7'']" "[]"]
  have 5: "main [''7''] = Run (Integer 7) ''csv''" by (simp add: d l)
  from entry_point_rejects [of "[''9007199254740993'', ''csv'']" "[]"]
  have 6: "main [''9007199254740993'', ''csv''] = Run (Huge False) ''csv''" by (simp add: d l)
  from 1 2 3 4 5 6 show ?thesis by simp
qed

text \<open>
  Claim C8 as stated fails: the count is not checked against any range, and a count
  argument with text after its digits is read up to that text. A negative count, a zero
  count and the argument \<^verbatim>\<open>12abc\<close> all start the run.
\<close>

theorem entry_point_counterexample:
  "main [''-5'', ''csv''] = Run (Integer (- 5)) ''csv'' \<and>
   main [''0'', ''csv''] = Run (Integer 0) ''csv'' \<and>
   main [''12abc'', ''txt''] = Run (Integer 12) ''txt''"
  by code_simp

end
